theory Spec2Isabelle
  imports Complex_Main
begin

text \<open>
  The agent of elastic-agent: the loop that drives a completion provider through tool
  calls until a reply (\<open>AIAgent\<close>), the tools and their result shaping (\<open>ToolSystem\<close>:
  condensation, rephrasing, the search tools), and the reconstruction of streamed tool
  calls (\<open>OpenAIProvider\<close>). Remote services and built-ins are parameters; every throw
  is a value; state is passed explicitly.
\<close>

section \<open>Values of the run-time\<close>

text \<open>
  A JavaScript string is a sequence of UTF-16 code units and \<open>.length\<close> counts them; a
  \<^typ>\<open>string\<close> here has one element per code unit.

  \<open>json\<close> is what \<open>JSON.parse\<close> can return. An object holds its own properties as an
  association list with distinct keys. Numbers are the integers a result count takes.
\<close>

datatype json =
    JNull
  | JBool bool
  | JNum int
  | JStr string
  | JArr "json list"
  | JObj "(string \<times> json) list"

text \<open>
  What a \<open>catch\<close> clause receives: an \<open>Error\<close> instance with its message, or some other
  thrown value.
\<close>

datatype js_error = JsError string | NonError

text \<open>\<open>error instanceof Error ? error.message : 'Unknown error'\<close>\<close>

fun errorMessage :: "js_error \<Rightarrow> string" where
  "errorMessage (JsError m) = m"
| "errorMessage NonError = ''Unknown error''"

text \<open>
  Truthiness of a value that may be \<open>undefined\<close> (\<open>None\<close>): \<open>undefined\<close>, \<open>null\<close>,
  \<open>false\<close>, \<open>0\<close> and the empty string are falsy, everything else is truthy.
\<close>

fun truthy :: "json option \<Rightarrow> bool" where
  "truthy None = False"
| "truthy (Some JNull) = False"
| "truthy (Some (JBool b)) = b"
| "truthy (Some (JNum n)) = (n \<noteq> 0)"
| "truthy (Some (JStr s)) = (s \<noteq> [])"
| "truthy (Some (JArr xs)) = True"
| "truthy (Some (JObj kvs)) = True"

text \<open>
  Reading the property \<open>k\<close> of a value, \<open>v.k\<close>: a \<open>TypeError\<close> on \<open>null\<close>; an object gives
  its own property or \<open>undefined\<close>; the property names the tools read (\<open>index\<close>, \<open>query\<close>,
  \<open>size\<close>, \<open>message\<close>, ...) are on no prototype of a boolean, number, string or array.
\<close>

fun getProp :: "json \<Rightarrow> string \<Rightarrow> js_error + json option" where
  "getProp JNull k =
     Inl (JsError (''Cannot read properties of null (reading '' @ [CHR 0x27] @ k @ [CHR 0x27] @ '')''))"
| "getProp (JObj kvs) k = Inr (map_of kvs k)"
| "getProp v k = Inr None"

section \<open>Condensation (tools.ts, estimateTokens and condenseContent)\<close>

definition condensedMarker :: string where
  "condensedMarker =
     [CHR 0x0A, CHR 0x0A] @ ''... [CONTENT CONDENSED DUE TO LENGTH] ...'' @ [CHR 0x0A, CHR 0x0A]"

text \<open>
  \<open>String.prototype.substring\<close>: both indices are clamped to \<open>[0, length]\<close> and swapped
  when the first is the larger one.
\<close>

definition clampIndex :: "nat \<Rightarrow> int \<Rightarrow> nat" where
  "clampIndex len i = (if i < 0 then 0 else if int len < i then len else nat i)"

definition substring :: "string \<Rightarrow> int \<Rightarrow> int \<Rightarrow> string" where
  "substring s indexStart indexEnd =
     (let a = clampIndex (length s) indexStart;
          b = clampIndex (length s) indexEnd
      in take (max a b - min a b) (drop (min a b) s))"

text \<open>\<open>s.substring(indexStart)\<close>: the end defaults to the length.\<close>

definition substringFrom :: "string \<Rightarrow> int \<Rightarrow> string" where
  "substringFrom s indexStart = substring s indexStart (int (length s))"

text \<open>
  \<open>Math.ceil(text.length / 4)\<close>. The token budget is an integer; the quotients and the
  product with \<open>0.8\<close> are taken as exact rationals. (The double nearest to \<open>0.8\<close> lies
  above it by less than \<open>2^-54\<close>, so for an integer budget the rounded product has the
  floor of the exact one.)
\<close>

definition estimateTokens :: "string \<Rightarrow> int" where
  "estimateTokens text = \<lceil>rat_of_int (int (length text)) / 4\<rceil>"

definition condenseContent :: "string \<Rightarrow> int \<Rightarrow> string" where
  "condenseContent content maxTokens =
     (let estimatedTokens = estimateTokens content in
      if estimatedTokens \<le> maxTokens then content
      else
        let maxCharacters = \<lfloor>rat_of_int maxTokens * 4 * (8 / 10)\<rfloor>;
            halfMaxChars = \<lfloor>rat_of_int maxCharacters / 2\<rfloor>;
            beginning = substring content 0 halfMaxChars;
            ending = substringFrom content (int (length content) - halfMaxChars)
        in beginning @ condensedMarker @ ending)"

subsection \<open>The reference definition of the specification\<close>

text \<open>
  Written from the words of the specification, to be compared with \<open>condenseContent\<close>:
  the effective character budget \<open>floor(budget * 4 * 0.8)\<close>, its half \<open>N\<close>, the first \<open>N\<close>
  and the last \<open>N\<close> characters of the text.
\<close>

definition effectiveCharBudget :: "int \<Rightarrow> int" where
  "effectiveCharBudget budget = \<lfloor>rat_of_int budget * 4 * (8 / 10)\<rfloor>"

definition halfBudget :: "int \<Rightarrow> nat" where
  "halfBudget budget = nat \<lfloor>rat_of_int (effectiveCharBudget budget) / 2\<rfloor>"

definition firstChars :: "nat \<Rightarrow> string \<Rightarrow> string" where
  "firstChars n s = take n s"

definition lastChars :: "nat \<Rightarrow> string \<Rightarrow> string" where
  "lastChars n s = rev (take n (rev s))"

definition condense_reference :: "string \<Rightarrow> int \<Rightarrow> string" where
  "condense_reference text budget =
     (if \<lceil>rat_of_int (int (length text)) / 4\<rceil> \<le> budget then text
      else firstChars (halfBudget budget) text @ condensedMarker @
           lastChars (halfBudget budget) text)"

section \<open>The collaborators of the tool layer\<close>

text \<open>
  \<open>ElasticQuery\<close> of types.ts. The fields are typed in the source, but the values come
  from the parsed arguments (\<open>any\<close>), so each is a \<open>json\<close>; an optional field that is
  not set is \<open>None\<close>.
\<close>

record ElasticQuery =
  q_index :: json
  q_query :: json
  q_size :: "json option"
  q_from :: "json option"

text \<open>What \<open>ElasticClient.search\<close> hands to the Elasticsearch client.\<close>

record SearchRequest =
  req_index :: json
  req_query :: json
  req_size :: json
  req_from :: json

record Hit =
  hit_source :: json
  hit_score :: json
  hit_id :: string

record ElasticResult =
  total_value :: int
  hits :: "Hit list"

text \<open>
  The answer of \<open>openai.chat.completions.create\<close>, as far as \<open>rephraseResults\<close> reads
  it: \<open>response.choices[0]?.message?.content\<close>. \<open>choices\<close> is \<open>None\<close> for a malformed
  answer without the field; a choice may lack its message, a message its content.
\<close>

record Choice =
  choice_message :: "string option option"

record ChatCompletion =
  choices :: "Choice list option"

text \<open>
  The tool layer's surroundings: built-ins of the run-time and the two remote services.
  Every remote call takes the execution id of the tool execution that makes it, so that
  two executions may get different answers. \<open>Inl\<close> is a rejected promise or a throw.
  \<^item> \<open>JSON_stringify v\<close> is \<open>JSON.stringify(v, null, 2)\<close>;
  \<^item> \<open>String_of v\<close> is the string a template literal or a computed property key makes of
    a value (\<open>None\<close> is \<open>undefined\<close>);
  \<^item> \<open>Object_values v\<close> is \<open>Object.values(v)\<close> of a truthy value;
  \<^item> \<open>client_search\<close>, \<open>client_cat_indices\<close> and \<open>client_getMapping\<close> are the calls of
    the Elasticsearch client that \<open>ElasticClient\<close> wraps; \<open>client_cat_indices\<close> gives the
    \<open>index\<close> field of every row;
  \<^item> \<open>chat_create\<close> is the completion request of the rephraser, determined by the
    original query and the search results that its prompt embeds.
\<close>

record tool_env =
  JSON_stringify :: "json \<Rightarrow> string"
  String_of :: "json option \<Rightarrow> string"
  Object_values :: "json \<Rightarrow> json list"
  client_search :: "nat \<Rightarrow> SearchRequest \<Rightarrow> js_error + ElasticResult"
  client_cat_indices :: "nat \<Rightarrow> js_error + string list"
  client_getMapping :: "nat \<Rightarrow> json option \<Rightarrow> js_error + json"
  chat_create :: "nat \<Rightarrow> json option \<Rightarrow> string \<Rightarrow> js_error + ChatCompletion"

text \<open>
  The mutable part of a \<open>ToolSystem\<close>: its execution counter. \<open>searchLog\<close> is not in the
  source: it records, in order, every request that \<open>ElasticClient.search\<close> sends.
\<close>

record ToolSystem =
  executionCounter :: nat
  searchLog :: "SearchRequest list"

text \<open>\<open>a || b\<close> for a value that may be \<open>undefined\<close>.\<close>

definition orElse :: "json option \<Rightarrow> json \<Rightarrow> json" where
  "orElse a b = (case a of Some v \<Rightarrow> if truthy a then v else b | None \<Rightarrow> b)"

text \<open>\<open>ElasticClient.search\<close>: the catch clause logs and rethrows.\<close>

definition ElasticClient_search ::
  "tool_env \<Rightarrow> nat \<Rightarrow> ElasticQuery \<Rightarrow> ToolSystem \<Rightarrow> (js_error + ElasticResult) \<times> ToolSystem" where
  "ElasticClient_search env executionId q ts =
     (let request = \<lparr> req_index = q_index q, req_query = q_query q,
                       req_size = orElse (q_size q) (JNum 10),
                       req_from = orElse (q_from q) (JNum 0) \<rparr>
      in (client_search env executionId request, ts\<lparr>searchLog := searchLog ts @ [request]\<rparr>))"

section \<open>Result rephrasing (tools.ts, rephraseResults)\<close>

text \<open>The body of the \<open>try\<close> block: \<open>Inl\<close> is what reaches the \<open>catch\<close> clause.\<close>

definition rephraseTry ::
  "tool_env \<Rightarrow> nat \<Rightarrow> json option \<Rightarrow> string \<Rightarrow> js_error + string" where
  "rephraseTry env executionId originalQuery searchResults =
     (case chat_create env executionId originalQuery searchResults of
        Inl e \<Rightarrow> Inl e
      | Inr response \<Rightarrow>
          (case choices response of
             None \<Rightarrow> Inl (JsError ''Cannot read properties of undefined (reading 0)'')
           | Some [] \<Rightarrow> Inr searchResults
           | Some (c # cs) \<Rightarrow>
               (case choice_message c of
                  None \<Rightarrow> Inr searchResults
                | Some None \<Rightarrow> Inr searchResults
                | Some (Some text) \<Rightarrow> Inr (if text = [] then searchResults else text))))"

definition rephraseResults ::
  "tool_env \<Rightarrow> nat \<Rightarrow> json option \<Rightarrow> string \<Rightarrow> string" where
  "rephraseResults env executionId originalQuery searchResults =
     (case rephraseTry env executionId originalQuery searchResults of
        Inr rephrasedResult \<Rightarrow> rephrasedResult
      | Inl e \<Rightarrow> searchResults)"

section \<open>The tools (tools.ts)\<close>

definition quoted :: "string \<Rightarrow> string" where
  "quoted s = [CHR 0x27] @ s @ [CHR 0x27]"

text \<open>The JSON text both search tools make of a result.\<close>

definition formatResult :: "tool_env \<Rightarrow> ElasticResult \<Rightarrow> string" where
  "formatResult env result =
     JSON_stringify env
       (JObj [(''total'', JNum (total_value result)),
              (''results'', JArr (map (\<lambda>hit. JObj [(''id'', JStr (hit_id hit)),
                                                    (''score'', hit_score hit),
                                                    (''source'', hit_source hit)])
                                    (hits result)))])"

text \<open>\<open>typeof v === 'object'\<close>\<close>

fun typeofObject :: "json \<Rightarrow> bool" where
  "typeofObject JNull = True"
| "typeofObject (JArr xs) = True"
| "typeofObject (JObj kvs) = True"
| "typeofObject v = False"

text \<open>\<open>v[0]\<close> of a truthy value.\<close>

fun elementZero :: "json \<Rightarrow> json option" where
  "elementZero (JStr (c # cs)) = Some (JStr [c])"
| "elementZero (JArr (x # xs)) = Some x"
| "elementZero (JObj kvs) = map_of kvs ''0''"
| "elementZero v = None"

text \<open>\<open>Object.values(v)[0]\<close>\<close>

definition firstValue :: "tool_env \<Rightarrow> json \<Rightarrow> json option" where
  "firstValue env v = (case Object_values env v of [] \<Rightarrow> None | x # xs \<Rightarrow> Some x)"

text \<open>
  The body of the \<open>try\<close> block that looks for the text of the original query in
  \<open>args.query\<close>; \<open>current\<close> is the value \<open>originalQuery\<close> has when the block is entered.
  \<open>mustClause.match\<close> of a string is the method \<open>String.prototype.match\<close>, a truthy
  function without enumerable properties.
\<close>

definition extractQueryTry :: "tool_env \<Rightarrow> json \<Rightarrow> json option \<Rightarrow> js_error + json option" where
  "extractQueryTry env query current =
     (if \<not> typeofObject query then Inr current
      else
        (case getProp query ''match'' of
           Inl e \<Rightarrow> Inl e
         | Inr m \<Rightarrow>
             if truthy m then Inr (firstValue env (orElse m JNull))
             else
               (case getProp query ''bool'' of
                  Inl e \<Rightarrow> Inl e
                | Inr b \<Rightarrow>
                    (case (case b of None \<Rightarrow> Inr None | Some JNull \<Rightarrow> Inr None
                                   | Some bv \<Rightarrow> getProp bv ''must'') of
                       Inl e \<Rightarrow> Inl e
                     | Inr must \<Rightarrow>
                         if \<not> truthy must then Inr current
                         else
                           (case elementZero (orElse must JNull) of
                              None \<Rightarrow> Inl (JsError ''Cannot read properties of undefined (reading match)'')
                            | Some (JStr s) \<Rightarrow> Inr None
                            | Some mustClause \<Rightarrow>
                                (case getProp mustClause ''match'' of
                                   Inl e \<Rightarrow> Inl e
                                 | Inr mm \<Rightarrow>
                                     if truthy mm then Inr (firstValue env (orElse mm JNull))
                                     else Inr current))))))"

definition extractQuery :: "tool_env \<Rightarrow> json \<Rightarrow> json option" where
  "extractQuery env query =
     (case extractQueryTry env query (Some (JStr ''elasticsearch query'')) of
        Inr originalQuery \<Rightarrow> originalQuery
      | Inl e \<Rightarrow> Some (JStr ''elasticsearch query''))"

text \<open>
  What follows a search in both search tools: format, condense to 128000 tokens,
  rephrase.
\<close>

definition shapeResult :: "tool_env \<Rightarrow> nat \<Rightarrow> json option \<Rightarrow> ElasticResult \<Rightarrow> string" where
  "shapeResult env executionId originalQuery result =
     (let formattedResult = formatResult env result;
          condensedResult = condenseContent formattedResult 128000
      in rephraseResults env executionId originalQuery condensedResult)"

text \<open>\<open>searchElastic\<close>: first the body of its \<open>try\<close> block, then the whole method.\<close>

definition searchElasticTry ::
  "tool_env \<Rightarrow> json \<Rightarrow> nat \<Rightarrow> ToolSystem \<Rightarrow> (js_error + string) \<times> ToolSystem" where
  "searchElasticTry env args executionId ts =
     (case getProp args ''index'' of
        Inl e \<Rightarrow> (Inl e, ts)
      | Inr argIndex \<Rightarrow>
          if \<not> truthy argIndex then (Inr ''Error: Missing required parameter: index'', ts)
          else
            (case getProp args ''query'' of
               Inl e \<Rightarrow> (Inl e, ts)
             | Inr argQuery \<Rightarrow>
                 if \<not> truthy argQuery then
                   (Inr (''Error: Missing required parameter: query. The search_elastic tool requires both ''
                         @ quoted ''index'' @ '' and '' @ quoted ''query'' @ '' parameters.''), ts)
                 else
                   (case getProp args ''size'' of
                      Inl e \<Rightarrow> (Inl e, ts)
                    | Inr argSize \<Rightarrow>
                        let query = \<lparr> q_index = orElse argIndex JNull,
                                        q_query = orElse argQuery JNull,
                                        q_size = Some (orElse argSize (JNum 10)),
                                        q_from = None \<rparr>
                        in (case ElasticClient_search env executionId query ts of
                              (Inl e, ts') \<Rightarrow> (Inl e, ts')
                            | (Inr result, ts') \<Rightarrow>
                                (Inr (shapeResult env executionId
                                        (extractQuery env (q_query query)) result), ts')))))"

definition searchElastic ::
  "tool_env \<Rightarrow> json \<Rightarrow> nat \<Rightarrow> ToolSystem \<Rightarrow> string \<times> ToolSystem" where
  "searchElastic env args executionId ts =
     (case searchElasticTry env args executionId ts of
        (Inr result, ts') \<Rightarrow> (result, ts')
      | (Inl e, ts') \<Rightarrow> (''Error searching Elasticsearch: '' @ errorMessage e, ts'))"

text \<open>
  \<open>simpleSearch\<close>. The query it builds is a \<open>multi_match\<close> over three fields, joined
  with a \<open>term\<close> filter under \<open>bool.must\<close> when both filter arguments are truthy.
\<close>

definition multiMatch :: "json \<Rightarrow> json" where
  "multiMatch searchText =
     JObj [(''multi_match'',
            JObj [(''query'', searchText),
                  (''fields'', JArr [JStr ''name^2'', JStr ''content'', JStr ''file_path'']),
                  (''type'', JStr ''best_fields''),
                  (''fuzziness'', JStr ''AUTO'')])]"

definition simpleSearchTry ::
  "tool_env \<Rightarrow> json \<Rightarrow> nat \<Rightarrow> ToolSystem \<Rightarrow> (js_error + string) \<times> ToolSystem" where
  "simpleSearchTry env args executionId ts =
     (case getProp args ''index'' of
        Inl e \<Rightarrow> (Inl e, ts)
      | Inr argIndex \<Rightarrow>
          if \<not> truthy argIndex then (Inr ''Error: Missing required parameter: index'', ts)
          else
            (case (getProp args ''search_text'', getProp args ''filter_field'',
                   getProp args ''filter_value'', getProp args ''size'') of
               (Inr searchText, Inr filterField, Inr filterValue, Inr argSize) \<Rightarrow>
                 if \<not> truthy searchText then
                   (Inr ''Error: Missing required parameter: search_text'', ts)
                 else
                   let esQuery =
                         (if truthy filterField \<and> truthy filterValue then
                            JObj [(''bool'',
                                   JObj [(''must'',
                                          JArr [multiMatch (orElse searchText JNull),
                                                JObj [(''term'',
                                                       JObj [(String_of env filterField,
                                                              orElse filterValue JNull)])]])])]
                          else multiMatch (orElse searchText JNull));
                       query = \<lparr> q_index = orElse argIndex JNull,
                                   q_query = esQuery,
                                   q_size = Some (orElse argSize (JNum 10)),
                                   q_from = None \<rparr>
                   in (case ElasticClient_search env executionId query ts of
                         (Inl e, ts') \<Rightarrow> (Inl e, ts')
                       | (Inr result, ts') \<Rightarrow>
                           (Inr (shapeResult env executionId
                                   (Some (orElse searchText (JStr ''simple search query'')))
                                   result), ts'))
             | (Inl e, rest) \<Rightarrow> (Inl e, ts)
             | (Inr a, Inl e, rest) \<Rightarrow> (Inl e, ts)
             | (Inr a, Inr b, Inl e, rest) \<Rightarrow> (Inl e, ts)
             | (Inr a, Inr b, Inr c, Inl e) \<Rightarrow> (Inl e, ts)))"

definition simpleSearch ::
  "tool_env \<Rightarrow> json \<Rightarrow> nat \<Rightarrow> ToolSystem \<Rightarrow> string \<times> ToolSystem" where
  "simpleSearch env args executionId ts =
     (case simpleSearchTry env args executionId ts of
        (Inr result, ts') \<Rightarrow> (result, ts')
      | (Inl e, ts') \<Rightarrow> (''Error in simple search: '' @ errorMessage e, ts'))"

text \<open>\<open>indices.join(', ')\<close>\<close>

fun joinComma :: "string list \<Rightarrow> string" where
  "joinComma [] = []"
| "joinComma [x] = x"
| "joinComma (x # y # ys) = x @ '', '' @ joinComma (y # ys)"

definition listIndices :: "tool_env \<Rightarrow> nat \<Rightarrow> string" where
  "listIndices env executionId =
     (case client_cat_indices env executionId of
        Inr indices \<Rightarrow> ''Available indices: '' @ joinComma indices
      | Inl e \<Rightarrow> ''Error listing indices: '' @ errorMessage e)"

definition getMapping :: "tool_env \<Rightarrow> json \<Rightarrow> nat \<Rightarrow> string" where
  "getMapping env args executionId =
     (case getProp args ''index'' of
        Inl e \<Rightarrow> ''Error getting mapping: '' @ errorMessage e
      | Inr argIndex \<Rightarrow>
          (case client_getMapping env executionId argIndex of
             Inr mapping \<Rightarrow>
               ''Mapping for index '' @ [CHR 0x22] @ String_of env argIndex @ [CHR 0x22] @ '':''
               @ [CHR 0x0A] @ JSON_stringify env mapping
           | Inl e \<Rightarrow> ''Error getting mapping: '' @ errorMessage e))"

text \<open>
  \<open>reply\<close> has no \<open>try\<close> block of its own. Its log line calls
  \<open>args.message?.substring(0, 100)\<close>, which throws when the message is neither absent,
  nor \<open>null\<close>, nor a string.
\<close>

definition reply :: "tool_env \<Rightarrow> json \<Rightarrow> nat \<Rightarrow> js_error + string" where
  "reply env args executionId =
     (case getProp args ''message'' of
        Inl e \<Rightarrow> Inl e
      | Inr message \<Rightarrow>
          (case message of
             None \<Rightarrow> Inr (''REPLY: '' @ String_of env message)
           | Some JNull \<Rightarrow> Inr (''REPLY: '' @ String_of env message)
           | Some (JStr s) \<Rightarrow> Inr (''REPLY: '' @ String_of env message)
           | Some other \<Rightarrow> Inl (JsError ''args.message?.substring is not a function'')))"

text \<open>\<open>ToolCall\<close> of types.ts: a tool name and the parsed arguments.\<close>

record ToolCall =
  tool_name :: string
  tool_arguments :: json

text \<open>
  \<open>executeTool\<close>. \<open>logToolStart\<close> runs before the \<open>try\<close> block and calls
  \<open>Object.keys(args)\<close>, which throws on \<open>null\<close>; the \<open>catch\<close> clause of the method logs
  and rethrows.
\<close>

definition executeTool ::
  "tool_env \<Rightarrow> ToolCall \<Rightarrow> ToolSystem \<Rightarrow> (js_error + string) \<times> ToolSystem" where
  "executeTool env toolCall ts0 =
     (let executionId = executionCounter ts0 + 1;
          ts = ts0\<lparr>executionCounter := executionId\<rparr>;
          args = tool_arguments toolCall
      in if args = JNull then
           (Inl (JsError ''Cannot convert undefined or null to object''), ts)
         else if tool_name toolCall = ''search_elastic'' then
           (case searchElastic env args executionId ts of (result, ts') \<Rightarrow> (Inr result, ts'))
         else if tool_name toolCall = ''simple_search'' then
           (case simpleSearch env args executionId ts of (result, ts') \<Rightarrow> (Inr result, ts'))
         else if tool_name toolCall = ''list_indices'' then
           (Inr (listIndices env executionId), ts)
         else if tool_name toolCall = ''get_mapping'' then
           (Inr (getMapping env args executionId), ts)
         else if tool_name toolCall = ''reply'' then
           (reply env args executionId, ts)
         else (Inl (JsError (''Unknown tool: '' @ tool_name toolCall)), ts))"

text \<open>\<open>haystack.includes(needle)\<close>\<close>

fun startsWith :: "string \<Rightarrow> string \<Rightarrow> bool" where
  "startsWith s [] = True"
| "startsWith [] (p # ps) = False"
| "startsWith (c # cs) (p # ps) = (c = p \<and> startsWith cs ps)"

fun includesStr :: "string \<Rightarrow> string \<Rightarrow> bool" where
  "includesStr [] needle = (needle = [])"
| "includesStr (c # cs) needle = (startsWith (c # cs) needle \<or> includesStr cs needle)"

section \<open>The provider interface (ai-providers.ts)\<close>

text \<open>\<open>ToolCall\<close> of ai-providers.ts; its \<open>type\<close> is always \<open>'function'\<close>.\<close>

record AIToolCall =
  call_id :: string
  function_name :: string
  function_arguments :: string

record StreamingResponse =
  response_content :: string
  response_tool_calls :: "AIToolCall list option"

datatype role = System | User | Assistant | Tool

text \<open>
  \<open>AgentMessage\<close> of types.ts and \<open>AIMessage\<close> of ai-providers.ts have the same fields; a
  content that is \<open>null\<close> or \<open>undefined\<close> is \<open>None\<close>.
\<close>

record AgentMessage =
  role :: role
  content :: "string option"
  tool_calls :: "AIToolCall list option"
  tool_call_id :: "string option"
  name :: "string option"

section \<open>The streaming provider (providers/openai-provider.ts)\<close>

text \<open>
  One element of \<open>delta.tool_calls\<close>: \<open>index\<close>, \<open>id\<close>, \<open>function?.name\<close> and
  \<open>function?.arguments\<close>, each possibly absent. A chunk carries \<open>delta?.content\<close> and
  \<open>delta?.tool_calls\<close>.
\<close>

record ToolCallDelta =
  delta_index :: "nat option"
  delta_id :: "string option"
  delta_name :: "string option"
  delta_arguments :: "string option"

record Chunk =
  chunk_content :: "string option"
  chunk_tool_calls :: "ToolCallDelta list option"

text \<open>
  The array \<open>toolCalls\<close> may have holes: an element that was never assigned is \<open>None\<close>.
  \<open>assignAt\<close> is \<open>toolCalls[i] = v\<close>, which lengthens the array when \<open>i\<close> is beyond its
  end; \<open>elementAt\<close> is \<open>toolCalls[i]\<close>, \<open>undefined\<close> beyond the end.
\<close>

definition elementAt :: "'a option list \<Rightarrow> nat \<Rightarrow> 'a option" where
  "elementAt xs i = (if i < length xs then xs ! i else None)"

definition assignAt :: "'a option list \<Rightarrow> nat \<Rightarrow> 'a \<Rightarrow> 'a option list" where
  "assignAt xs i v =
     (if i < length xs then xs[i := Some v]
      else xs @ replicate (i - length xs) None @ [Some v])"

text \<open>\<open>s += fragment\<close> under \<open>if (fragment)\<close>: an absent or empty fragment adds nothing.\<close>

definition appendFragment :: "string \<Rightarrow> string option \<Rightarrow> string" where
  "appendFragment s fragment =
     (case fragment of None \<Rightarrow> s | Some f \<Rightarrow> if f = [] then s else s @ f)"

text \<open>The body of the loop over \<open>delta.tool_calls\<close>.\<close>

definition applyToolCallDelta ::
  "AIToolCall option list \<Rightarrow> ToolCallDelta \<Rightarrow> AIToolCall option list" where
  "applyToolCallDelta toolCalls toolCallDelta =
     (case delta_index toolCallDelta of
        None \<Rightarrow> toolCalls
      | Some i \<Rightarrow>
          let initialised =
                (case elementAt toolCalls i of
                   None \<Rightarrow>
                     assignAt toolCalls i
                       \<lparr> call_id = (case delta_id toolCallDelta of
                                      None \<Rightarrow> [] | Some d \<Rightarrow> d),
                         function_name = [], function_arguments = [] \<rparr>
                 | Some existing \<Rightarrow> toolCalls)
          in (case elementAt initialised i of
                None \<Rightarrow> initialised
              | Some toolCall \<Rightarrow>
                  initialised[i := Some (toolCall
                    \<lparr> function_name :=
                        appendFragment (function_name toolCall) (delta_name toolCallDelta),
                      function_arguments :=
                        appendFragment (function_arguments toolCall)
                          (delta_arguments toolCallDelta) \<rparr>)]))"

text \<open>
  The state of the loop over the stream. \<open>observed\<close> is not in the source: it lists the
  calls of \<open>onContent\<close> in order.
\<close>

record StreamState =
  fullContent :: string
  toolCalls :: "AIToolCall option list"
  isStreamingContent :: bool
  observed :: "string list"

text \<open>
  The body of the loop over the chunks. \<open>hasObserver\<close> says whether \<open>onContent\<close> was
  given, \<open>startMarker\<close> is the text that announces the first content.
\<close>

definition processChunk :: "bool \<Rightarrow> string \<Rightarrow> StreamState \<Rightarrow> Chunk \<Rightarrow> StreamState" where
  "processChunk hasObserver startMarker st chunk =
     (let st1 =
            (case chunk_content chunk of
               None \<Rightarrow> st
             | Some c \<Rightarrow>
                 if c = [] then st
                 else
                   let a = st\<lparr>fullContent := fullContent st @ c\<rparr>;
                       b = (if \<not> isStreamingContent a \<and> hasObserver
                            then a\<lparr>isStreamingContent := True,
                                   observed := observed a @ [startMarker]\<rparr>
                            else a)
                   in if hasObserver then b\<lparr>observed := observed b @ [c]\<rparr> else b)
      in (case chunk_tool_calls chunk of
            None \<Rightarrow> st1
          | Some deltas \<Rightarrow> st1\<lparr>toolCalls := foldl applyToolCallDelta (toolCalls st1) deltas\<rparr>))"

text \<open>
  What \<open>streamCompletion\<close> makes of a stream: the final state and the returned
  \<open>tool_calls\<close>, \<open>undefined\<close> when the array is empty.
\<close>

definition consumeStream :: "bool \<Rightarrow> string \<Rightarrow> Chunk list \<Rightarrow> StreamState" where
  "consumeStream hasObserver startMarker chunks =
     (let st = foldl (processChunk hasObserver startMarker)
                 \<lparr> fullContent = [], toolCalls = [], isStreamingContent = False,
                   observed = [] \<rparr> chunks
      in if isStreamingContent st \<and> hasObserver
         then st\<lparr>observed := observed st @ [[CHR 0x0A]]\<rparr> else st)"

definition streamedToolCalls :: "StreamState \<Rightarrow> AIToolCall option list option" where
  "streamedToolCalls st = (if length (toolCalls st) > 0 then Some (toolCalls st) else None)"

text \<open>
  For the claim about fragments: the deltas of a stream in arrival order, those of them
  that carry a given index, and the text of a fragment.
\<close>

definition arrivedDeltas :: "Chunk list \<Rightarrow> ToolCallDelta list" where
  "arrivedDeltas chunks =
     concat (map (\<lambda>chunk. case chunk_tool_calls chunk of None \<Rightarrow> [] | Some ds \<Rightarrow> ds) chunks)"

definition deltasAt :: "nat \<Rightarrow> ToolCallDelta list \<Rightarrow> ToolCallDelta list" where
  "deltasAt i ds = filter (\<lambda>d. delta_index d = Some i) ds"

definition fragmentText :: "string option \<Rightarrow> string" where
  "fragmentText fragment = (case fragment of None \<Rightarrow> [] | Some f \<Rightarrow> f)"

section \<open>The agent loop (class AIAgent)\<close>

text \<open>
  \<open>AgentState\<close> of types.ts. \<open>finalResponse\<close> is typed as an optional string, but the
  reply branch stores \<open>toolArgs.message\<close> of the parsed arguments whatever it is, so the
  field holds a \<open>json\<close>; \<open>None\<close> is \<open>undefined\<close>.
\<close>

record AgentState =
  query :: string
  messages :: "AgentMessage list"
  elasticResults :: "ElasticResult list"
  isComplete :: bool
  finalResponse :: "json option"

text \<open>
  The surroundings of the agent: those of its tool system, \<open>JSON.parse\<close> (\<open>None\<close> when it
  throws) and the provider's \<open>streamCompletion\<close>, which gets the conversation in
  provider format. The observer \<open>onStreamingContent\<close> is taken not to throw.
\<close>

record agent_env =
  toolEnv :: tool_env
  JSON_parse :: "string \<Rightarrow> json option"
  streamCompletion :: "AgentMessage list \<Rightarrow> js_error + StreamingResponse"

fun joinLines :: "string list \<Rightarrow> string" where
  "joinLines [] = []"
| "joinLines [x] = x"
| "joinLines (x # y # ys) = x @ [CHR 0x0A] @ joinLines (y # ys)"

definition systemPrompt :: string where
  "systemPrompt = joinLines
     [''You are an AI assistant that helps users query and analyze data from an Elasticsearch database. '',
      '''',
      ''Your goal is to:'',
      ''1. Understand the user'' @ [CHR 0x27] @ ''s question'',
      ''2. Explore the available data in Elasticsearch'',
      ''3. Refine your searches to find the most relevant information'',
      ''4. Provide a comprehensive answer based on the data found'',
      '''',
      ''Available tools:'',
      ''- search_elastic: Search the database with specific queries'',
      ''- list_indices: See what data collections are available'',
      ''- get_mapping: Understand the structure of data in an index'',
      ''- reply: Provide your final answer to the user'',
      '''',
      ''Always start by exploring what data is available, then progressively refine your searches. When you have enough information to answer the user''
        @ [CHR 0x27] @ ''s question comprehensively, use the reply tool to provide your final response.'']"

definition initializeState :: "string \<Rightarrow> AgentState" where
  "initializeState userQuery =
     \<lparr> query = userQuery,
       messages =
         [\<lparr> role = System, content = Some systemPrompt, tool_calls = None,
             tool_call_id = None, name = None \<rparr>,
          \<lparr> role = User, content = Some userQuery, tool_calls = None,
             tool_call_id = None, name = None \<rparr>],
       elasticResults = [],
       isComplete = False,
       finalResponse = None \<rparr>"

text \<open>\<open>content: msg.content || undefined\<close>\<close>

definition toProviderMessage :: "AgentMessage \<Rightarrow> AgentMessage" where
  "toProviderMessage msg =
     msg\<lparr>content := (case content msg of None \<Rightarrow> None
                                          | Some c \<Rightarrow> if c = [] then None else Some c)\<rparr>"

text \<open>
  \<open>callAIProvider\<close>: a failing provider call leaves the conversation as it was; a
  successful one appends the assistant's message.
\<close>

definition assistantMessage :: "StreamingResponse \<Rightarrow> AgentMessage" where
  "assistantMessage response =
     \<lparr> role = Assistant, content = Some (response_content response),
       tool_calls = response_tool_calls response, tool_call_id = None, name = None \<rparr>"

definition callAIProvider ::
  "agent_env \<Rightarrow> AgentState \<Rightarrow> (js_error + StreamingResponse) \<times> AgentState" where
  "callAIProvider env st =
     (case streamCompletion env (map toProviderMessage (messages st)) of
        Inl e \<Rightarrow> (Inl e, st)
      | Inr response \<Rightarrow>
          (Inr response, st\<lparr>messages := messages st @ [assistantMessage response]\<rparr>))"

text \<open>
  \<open>handleToolCalls\<close>: the loop over the batch. The first component of the result is the
  error the method throws, if it throws; the state is the one it has reached by then.
\<close>

fun handleToolCalls ::
  "agent_env \<Rightarrow> AIToolCall list \<Rightarrow> AgentState \<times> ToolSystem \<Rightarrow>
     js_error option \<times> AgentState \<times> ToolSystem" where
  "handleToolCalls env [] (st, ts) = (None, st, ts)"
| "handleToolCalls env (toolCall # rest) (st, ts) =
     (let toolName = function_name toolCall in
      case JSON_parse env (function_arguments toolCall) of
        None \<Rightarrow> handleToolCalls env rest (st, ts)
      | Some toolArgs \<Rightarrow>
          (case executeTool (toolEnv env)
                  \<lparr> tool_name = toolName, tool_arguments = toolArgs \<rparr> ts of
             (outcome, ts') \<Rightarrow>
               let result =
                     (case outcome of
                        Inr r \<Rightarrow> r
                      | Inl toolError \<Rightarrow>
                          ''Error executing '' @ toolName @ '': '' @ errorMessage toolError)
               in if toolName = ''reply'' then
                    (case getProp toolArgs ''message'' of
                       Inl e \<Rightarrow> (Some e, st, ts')
                     | Inr message \<Rightarrow>
                         (None, st\<lparr>finalResponse := message, isComplete := True\<rparr>, ts'))
                  else
                    handleToolCalls env rest
                      (st\<lparr>messages := messages st @
                            [\<lparr> role = Tool, content = Some result, tool_calls = None,
                               tool_call_id = Some (call_id toolCall),
                               name = Some toolName \<rparr>]\<rparr>, ts')))"

definition fallbackMessage :: string where
  "fallbackMessage =
     ''I apologize, but I'' @ [CHR 0x27] @ ''m having trouble finding a complete answer. Please try rephrasing your question or being more specific.''"

text \<open>The safety check that ends the body of the \<open>try\<close> block.\<close>

definition safetyCheck :: "AgentState \<Rightarrow> AgentState" where
  "safetyCheck st =
     (if length (messages st) > 20
      then st\<lparr>finalResponse := Some (JStr fallbackMessage), isComplete := True\<rparr>
      else st)"

text \<open>The \<open>catch\<close> clause of the loop.\<close>

definition catchTurnError :: "js_error \<Rightarrow> AgentState \<Rightarrow> AgentState" where
  "catchTurnError e st =
     st\<lparr>finalResponse :=
          Some (JStr (''An error occurred while processing your request: '' @ errorMessage e)),
        isComplete := True\<rparr>"

text \<open>
  The body of the \<open>try\<close> block of one pass of the loop: the error it throws, if any, and
  the state it has reached.
\<close>

definition turnTry ::
  "agent_env \<Rightarrow> AgentState \<times> ToolSystem \<Rightarrow> js_error option \<times> AgentState \<times> ToolSystem" where
  "turnTry env s =
     (case s of (st, ts) \<Rightarrow>
        (case callAIProvider env st of
           (Inl e, st1) \<Rightarrow> (Some e, st1, ts)
         | (Inr response, st1) \<Rightarrow>
             (case (if (case response_tool_calls response of
                          None \<Rightarrow> False | Some calls \<Rightarrow> length calls > 0)
                    then handleToolCalls env
                           (case response_tool_calls response of
                              None \<Rightarrow> [] | Some calls \<Rightarrow> calls) (st1, ts)
                    else if response_content response \<noteq> []
                    then (None, st1\<lparr>finalResponse := Some (JStr (response_content response)),
                                    isComplete := True\<rparr>, ts)
                    else (None, st1, ts)) of
                (Some e, st2, ts2) \<Rightarrow> (Some e, st2, ts2)
              | (None, st2, ts2) \<Rightarrow> (None, safetyCheck st2, ts2))))"

text \<open>One pass of the \<open>while\<close> loop: the \<open>try\<close> block and its \<open>catch\<close> clause.\<close>

definition turn :: "agent_env \<Rightarrow> AgentState \<times> ToolSystem \<Rightarrow> AgentState \<times> ToolSystem" where
  "turn env s =
     (case turnTry env s of
        (None, st, ts) \<Rightarrow> (st, ts)
      | (Some e, st, ts) \<Rightarrow> (catchTurnError e st, ts))"

text \<open>
  The \<open>while (!this.state.isComplete)\<close> loop. The source gives no bound on the number of
  passes, so the loop is a partial function: \<open>None\<close> is a run that never leaves it.
\<close>

partial_function (option) processLoop ::
  "agent_env \<Rightarrow> AgentState \<times> ToolSystem \<Rightarrow> (AgentState \<times> ToolSystem) option" where
  "processLoop env s = (if isComplete (fst s) then Some s else processLoop env (turn env s))"

definition noResponse :: string where
  "noResponse = ''No response generated.''"

text \<open>\<open>this.state.finalResponse || 'No response generated.'\<close>\<close>

definition returnedValue :: "AgentState \<Rightarrow> json" where
  "returnedValue st = orElse (finalResponse st) (JStr noResponse)"

text \<open>
  \<open>processQuery\<close>: the returned value, with the state the agent and its tool system are
  left in.
\<close>

definition processQuery ::
  "agent_env \<Rightarrow> string \<Rightarrow> ToolSystem \<Rightarrow> (json \<times> AgentState \<times> ToolSystem) option" where
  "processQuery env userQuery ts =
     (case processLoop env (initializeState userQuery, ts) of
        None \<Rightarrow> None
      | Some (st, ts') \<Rightarrow> Some (returnedValue st, st, ts'))"

section \<open>Example surroundings\<close>

text \<open>
  Concrete surroundings for the evaluations below: a search backend with no hits and two
  indices, a rephraser whose completion request always fails, and a parser that knows
  four argument texts.
\<close>

definition demoToolEnv :: tool_env where
  "demoToolEnv =
     \<lparr> JSON_stringify = (\<lambda>v. ''{}''),
       String_of = (\<lambda>v. case v of Some (JStr s) \<Rightarrow> s | _ \<Rightarrow> ''undefined''),
       Object_values = (\<lambda>v. case v of JObj kvs \<Rightarrow> map snd kvs | JArr xs \<Rightarrow> xs | _ \<Rightarrow> []),
       client_search = (\<lambda>executionId request. Inr \<lparr> total_value = 0, hits = [] \<rparr>),
       client_cat_indices = (\<lambda>executionId. Inr [''logs'', ''users'']),
       client_getMapping = (\<lambda>executionId i. Inr (JObj [])),
       chat_create = (\<lambda>executionId originalQuery searchResults. Inl (JsError ''quota exceeded'')) \<rparr>"

definition freshToolSystem :: ToolSystem where
  "freshToolSystem = \<lparr> executionCounter = 0, searchLog = [] \<rparr>"

definition jsonMessage :: "string \<Rightarrow> string" where
  "jsonMessage m = ''{'' @ [CHR 0x22] @ ''message'' @ [CHR 0x22] @ '':'' @ [CHR 0x22] @ m @ [CHR 0x22] @ ''}''"

definition demoParse :: "string \<Rightarrow> json option" where
  "demoParse s =
     (if s = ''{}'' then Some (JObj [])
      else if s = ''null'' then Some JNull
      else if s = jsonMessage ''done'' then Some (JObj [(''message'', JStr ''done'')])
      else if s = jsonMessage '''' then Some (JObj [(''message'', JStr '''')])
      else None)"

text \<open>
  An agent whose provider is given, with the example tool surroundings and parser; the
  provider that always gives the same answer; an answer that is a batch of tool calls;
  a \<open>list_indices\<close> request, a \<open>reply\<close> request with a message, a \<open>reply\<close> request whose
  arguments are \<open>null\<close>, and a request whose arguments do not parse.
\<close>

definition demoAgentEnv :: "(AgentMessage list \<Rightarrow> js_error + StreamingResponse) \<Rightarrow> agent_env" where
  "demoAgentEnv provider =
     \<lparr> toolEnv = demoToolEnv, JSON_parse = demoParse, streamCompletion = provider \<rparr>"

definition constantProvider ::
  "StreamingResponse \<Rightarrow> AgentMessage list \<Rightarrow> js_error + StreamingResponse" where
  "constantProvider response conversation = Inr response"

definition failingProvider :: "AgentMessage list \<Rightarrow> js_error + StreamingResponse" where
  "failingProvider conversation = Inl (JsError ''network down'')"

definition batchResponse :: "AIToolCall list \<Rightarrow> StreamingResponse" where
  "batchResponse calls = \<lparr> response_content = [], response_tool_calls = Some calls \<rparr>"

definition listCall :: AIToolCall where
  "listCall = \<lparr> call_id = ''call_list'', function_name = ''list_indices'',
                function_arguments = ''{}'' \<rparr>"

definition replyWith :: "string \<Rightarrow> AIToolCall" where
  "replyWith m = \<lparr> call_id = ''call_reply'', function_name = ''reply'',
                   function_arguments = jsonMessage m \<rparr>"

definition replyNull :: AIToolCall where
  "replyNull = \<lparr> call_id = ''call_reply'', function_name = ''reply'',
                 function_arguments = ''null'' \<rparr>"

definition brokenCall :: AIToolCall where
  "brokenCall = \<lparr> call_id = ''call_broken'', function_name = ''list_indices'',
                  function_arguments = ''{index:'' \<rparr>"

text \<open>
  A provider that asks for the list of indices while the conversation it is given holds
  fewer than 20 messages, and replies with a message once it holds 20: nine passes with
  one tool call each, then the reply.
\<close>

definition replyWhenFull :: "string \<Rightarrow> AgentMessage list \<Rightarrow> js_error + StreamingResponse" where
  "replyWhenFull m conversation =
     Inr (batchResponse (if length conversation < 20 then [listCall] else [replyWith m]))"

text \<open>What is read off the result of \<open>processQuery\<close> in the evaluations.\<close>

definition answerOf :: "(json \<times> AgentState \<times> ToolSystem) option \<Rightarrow> json option" where
  "answerOf r = map_option fst r"

definition conversationLengthOf :: "(json \<times> AgentState \<times> ToolSystem) option \<Rightarrow> nat option" where
  "conversationLengthOf r = map_option (\<lambda>(v, st, ts). length (messages st)) r"

definition executionsOf :: "(json \<times> AgentState \<times> ToolSystem) option \<Rightarrow> nat option" where
  "executionsOf r = map_option (\<lambda>(v, st, ts). executionCounter ts) r"

text \<open>
  A stream of three chunks in which the fragments of two calls interleave: the name of
  the call at index 0 arrives whole and its arguments in two pieces around the first
  piece of the name of the call at index 1.
\<close>

definition demoStream :: "Chunk list" where
  "demoStream =
     [\<lparr> chunk_content = None,
        chunk_tool_calls = Some [\<lparr> delta_index = Some 0, delta_id = Some ''call_a'',
                                   delta_name = Some ''list_indices'', delta_arguments = Some [] \<rparr>] \<rparr>,
      \<lparr> chunk_content = Some ''Looking'',
        chunk_tool_calls = Some [\<lparr> delta_index = Some 0, delta_id = None,
                                   delta_name = None, delta_arguments = Some ''{'' \<rparr>,
                                 \<lparr> delta_index = Some 1, delta_id = Some ''call_b'',
                                   delta_name = Some ''re'', delta_arguments = None \<rparr>] \<rparr>,
      \<lparr> chunk_content = None,
        chunk_tool_calls = Some [\<lparr> delta_index = Some 1, delta_id = None,
                                   delta_name = Some ''ply'', delta_arguments = Some ''null'' \<rparr>,
                                 \<lparr> delta_index = Some 0, delta_id = None,
                                   delta_name = None, delta_arguments = Some ''}'' \<rparr>] \<rparr>]"
section \<open>Condensation: arithmetic and the reference\<close>

lemma estimateTokens_div: "estimateTokens text = (int (length text) + 3) div 4"
proof -
  have "\<lceil>rat_of_int (int (length text)) / rat_of_int 4\<rceil> = - (- int (length text) div 4)"
    by (rule ceiling_divide_eq_div)
  moreover have "- (- int (length text) div 4) = (int (length text) + 3) div 4"
    by presburger
  ultimately show ?thesis unfolding estimateTokens_def by simp
qed

lemma maxCharacters_div: "\<lfloor>rat_of_int b * 4 * (8 / 10)\<rfloor> = (16 * b) div 5"
proof -
  have "rat_of_int b * 4 * (8 / 10) = rat_of_int (16 * b) / rat_of_int 5" by simp
  then show ?thesis by (simp only: floor_divide_of_int_eq)
qed

lemma halfMaxChars_div: "\<lfloor>rat_of_int m / 2\<rfloor> = m div 2"
proof -
  have "rat_of_int m / 2 = rat_of_int m / rat_of_int 2" by simp
  then show ?thesis by (simp only: floor_divide_of_int_eq)
qed

lemma condenseContent_arith:
  "condenseContent s maxTokens =
     (if (int (length s) + 3) div 4 \<le> maxTokens then s
      else substring s 0 ((16 * maxTokens) div 5 div 2) @ condensedMarker @
           substringFrom s (int (length s) - (16 * maxTokens) div 5 div 2))"
  unfolding condenseContent_def Let_def estimateTokens_div maxCharacters_div halfMaxChars_div
  by (rule refl)

lemma effectiveCharBudget_div: "effectiveCharBudget budget = (16 * budget) div 5"
  unfolding effectiveCharBudget_def by (rule maxCharacters_div)

lemma halfBudget_div: "halfBudget budget = nat ((16 * budget) div 5 div 2)"
  unfolding halfBudget_def effectiveCharBudget_div halfMaxChars_div by (rule refl)

lemma condense_reference_arith:
  "condense_reference text budget =
     (if (int (length text) + 3) div 4 \<le> budget then text
      else take (halfBudget budget) text @ condensedMarker @
           rev (take (halfBudget budget) (rev text)))"
  using estimateTokens_div [of "text"]
  unfolding condense_reference_def estimateTokens_def firstChars_def lastChars_def
  by simp

lemma lastChars_drop: "lastChars n s = drop (length s - n) s"
  unfolding lastChars_def by (simp add: take_rev)

lemma substring_prefix:
  assumes "0 \<le> h" and "h \<le> int (length s)"
  shows "substring s 0 h = take (nat h) s"
  using assms unfolding substring_def clampIndex_def Let_def by simp

lemma substringFrom_suffix:
  assumes "0 \<le> h" and "h \<le> int (length s)"
  shows "substringFrom s (int (length s) - h) = drop (length s - nat h) s"
proof -
  have "nat (int (length s) - h) = length s - nat h"
    using assms by linarith
  then show ?thesis
    using assms unfolding substringFrom_def substring_def clampIndex_def Let_def by simp
qed

lemma over_budget_half_fits:
  assumes "0 < budget" and "budget < (int (length s) + 3) div 4"
  shows "0 \<le> (16 * budget) div 5 div 2"
    and "(16 * budget) div 5 div 2 \<le> int (length s)"
    and "2 * ((16 * budget) div 5 div 2) \<le> (16 * budget) div 5"
proof -
  define m where "m = (16 * budget) div 5"
  define h where "h = m div 2"
  have m: "0 \<le> m" "5 * m \<le> 16 * budget"
    unfolding m_def using assms(1) by linarith+
  have h: "0 \<le> h" "2 * h \<le> m"
    unfolding h_def using m(1) by linarith+
  have len: "4 * budget + 1 \<le> int (length s)"
    using assms(2) by linarith
  show "0 \<le> (16 * budget) div 5 div 2"
    using h(1) unfolding h_def m_def .
  show "(16 * budget) div 5 div 2 \<le> int (length s)"
    using h m len assms(1) unfolding h_def m_def by linarith
  show "2 * ((16 * budget) div 5 div 2) \<le> (16 * budget) div 5"
    using h(2) unfolding h_def m_def .
qed

text \<open>
  C3. For a positive token budget \<open>condenseContent\<close> is the reference definition of the
  specification. When the estimate \<open>ceil(length / 4)\<close> is above the budget, the text has at
  least \<open>N\<close> characters (\<open>N\<close> half the effective character budget), the output is the
  first \<open>N\<close> characters, the marker and the last \<open>N\<close> characters, its length is at most
  the effective character budget plus the length of the marker, and its first and last
  \<open>N\<close> characters are those of the text.
\<close>
theorem condenseContent_matches_reference:
  assumes "0 < budget"
  shows "condenseContent s budget = condense_reference s budget \<and>
         (budget < estimateTokens s \<longrightarrow>
            halfBudget budget \<le> length s \<and>
            condenseContent s budget =
              firstChars (halfBudget budget) s @ condensedMarker @
              lastChars (halfBudget budget) s \<and>
            int (length (condenseContent s budget)) \<le>
              effectiveCharBudget budget + int (length condensedMarker) \<and>
            firstChars (halfBudget budget) (condenseContent s budget) =
              firstChars (halfBudget budget) s \<and>
            lastChars (halfBudget budget) (condenseContent s budget) =
              lastChars (halfBudget budget) s)"
proof (cases "budget < estimateTokens s")
  case False
  then have "(int (length s) + 3) div 4 \<le> budget"
    by (simp add: estimateTokens_div)
  then have "condenseContent s budget = condense_reference s budget"
    by (simp add: condenseContent_arith condense_reference_arith)
  with False show ?thesis by simp
next
  case True
  then have over: "budget < (int (length s) + 3) div 4"
    by (simp add: estimateTokens_div)
  define h where "h = (16 * budget) div 5 div 2"
  define N where "N = halfBudget budget"
  have h0: "0 \<le> h" and hlen: "h \<le> int (length s)"
    and h2: "2 * h \<le> (16 * budget) div 5"
    unfolding h_def using over_budget_half_fits [OF assms over] by blast+
  have N: "N = nat h" unfolding N_def h_def by (rule halfBudget_div)
  have Nlen: "N \<le> length s" using N h0 hlen by linarith
  have code: "condenseContent s budget =
      take N s @ condensedMarker @ drop (length s - N) s"
    using over substring_prefix [OF h0 hlen] substringFrom_suffix [OF h0 hlen]
    by (simp add: condenseContent_arith h_def [symmetric] N)
  have ref: "condense_reference s budget =
      take N s @ condensedMarker @ drop (length s - N) s"
    using over lastChars_drop [of N s]
    by (simp add: condense_reference_arith N_def [symmetric] lastChars_def)
  have shape: "condenseContent s budget =
      firstChars N s @ condensedMarker @ lastChars N s"
    by (simp add: code firstChars_def lastChars_drop)
  have len: "length (condenseContent s budget) = 2 * N + length condensedMarker"
    using Nlen by (simp add: code)
  have bound: "int (length (condenseContent s budget)) \<le>
      effectiveCharBudget budget + int (length condensedMarker)"
    using len N h0 h2 by (simp add: effectiveCharBudget_div)
  have first: "firstChars N (condenseContent s budget) = firstChars N s"
    using Nlen by (simp add: code firstChars_def)
  have last: "lastChars N (condenseContent s budget) = lastChars N s"
    using Nlen by (simp add: lastChars_drop len) (simp add: code)
  show ?thesis
    using code ref Nlen shape bound first last unfolding N_def by simp
qed

theorem condenseContent_matches_reference_witness:
  "(0::int) < 2 \<and> 2 < estimateTokens ''abcdefghijklmnopqrstuvwxyz'' \<and>
   halfBudget 2 = 3 \<and> effectiveCharBudget 2 = 6 \<and>
   condense_reference ''abcdefghijklmnopqrstuvwxyz'' 2 = ''abc'' @ condensedMarker @ ''xyz'' \<and>
   condenseContent ''abcdefghijklmnopqrstuvwxyz'' 2 = ''abc'' @ condensedMarker @ ''xyz'' \<and>
   int (length (condenseContent ''abcdefghijklmnopqrstuvwxyz'' 2)) \<le>
     6 + int (length condensedMarker)"
proof -
  have pos: "(0::int) < 2" by simp
  have over: "2 < estimateTokens ''abcdefghijklmnopqrstuvwxyz''"
    by (simp add: estimateTokens_div)
  have half: "halfBudget 2 = 3" and eff: "effectiveCharBudget 2 = 6"
    by (simp_all add: halfBudget_div effectiveCharBudget_div)
  have ref: "condense_reference ''abcdefghijklmnopqrstuvwxyz'' 2 =
      ''abc'' @ condensedMarker @ ''xyz''"
    by (simp add: condense_reference_arith half)
  note inst = condenseContent_matches_reference [OF pos, of "''abcdefghijklmnopqrstuvwxyz''"]
  from inst have same: "condenseContent ''abcdefghijklmnopqrstuvwxyz'' 2 =
      condense_reference ''abcdefghijklmnopqrstuvwxyz'' 2"
    by (rule conjunct1)
  from inst over have bound: "int (length (condenseContent ''abcdefghijklmnopqrstuvwxyz'' 2)) \<le>
      effectiveCharBudget 2 + int (length condensedMarker)"
    by blast
  from pos over half eff ref same bound show ?thesis by simp
qed

section \<open>The rephraser and the search tool\<close>

text \<open>
  C6. When the completion request of the rephraser fails, whatever the error, or its answer
  is malformed (no \<open>choices\<close>), the \<open>try\<close> block of \<open>rephraseResults\<close> ends in its
  \<open>catch\<close> clause and the method returns the search results it was given, unchanged; it
  returns a string, never an error.
\<close>

theorem rephraseResults_returns_input_on_failure:
  assumes "chat_create env executionId originalQuery searchResults = Inl e \<or>
           (\<exists>response. chat_create env executionId originalQuery searchResults = Inr response \<and>
                        choices response = None)"
  shows "(\<exists>caught. rephraseTry env executionId originalQuery searchResults = Inl caught) \<and>
         rephraseResults env executionId originalQuery searchResults = searchResults"
  using assms by (auto simp add: rephraseTry_def rephraseResults_def)

theorem rephraseResults_returns_input_on_failure_witness:
  "chat_create demoToolEnv 1 (Some (JStr ''parser'')) ''{}'' = Inl (JsError ''quota exceeded'') \<and>
   rephraseResults demoToolEnv 1 (Some (JStr ''parser'')) ''{}'' = ''{}''"
proof -
  have fails: "chat_create demoToolEnv 1 (Some (JStr ''parser'')) ''{}'' =
      Inl (JsError ''quota exceeded'')"
    by (simp add: demoToolEnv_def)
  from fails rephraseResults_returns_input_on_failure [of demoToolEnv 1 "Some (JStr ''parser'')" "''{}''"]
  show ?thesis by simp
qed

lemma missing_query_text_includes_query:
  "includesStr (''Error: Missing required parameter: query. The search_elastic tool requires both ''
      @ quoted ''index'' @ '' and '' @ quoted ''query'' @ '' parameters.'') ''query''"
  by (simp add: quoted_def)

lemma executeTool_search_elastic:
  assumes "args \<noteq> JNull"
  shows "executeTool env \<lparr> tool_name = ''search_elastic'', tool_arguments = args \<rparr> ts =
           (Inr (fst (searchElastic env args (executionCounter ts + 1)
                        (ts\<lparr>executionCounter := executionCounter ts + 1\<rparr>))),
            snd (searchElastic env args (executionCounter ts + 1)
                   (ts\<lparr>executionCounter := executionCounter ts + 1\<rparr>)))"
  using assms by (simp add: executeTool_def Let_def case_prod_beta)

text \<open>
  C5, amended. Let the arguments of the search tool be a parsed value other than \<open>null\<close>
  with no truthy \<open>query\<close> (the field is absent, or \<open>null\<close>, \<open>false\<close>, \<open>0\<close> or empty).
  Then \<open>searchElastic\<close> returns a string and leaves the tool system as it was, and
  \<open>executeTool\<close>, called for \<open>search_elastic\<close> with these arguments, returns that string
  and does not throw; no request reaches the search backend. The index is checked first:
  with a truthy \<open>index\<close> the string is the message about the missing \<open>query\<close>, which
  contains that word; without one it is the message about the missing \<open>index\<close>.
\<close>

theorem searchElastic_missing_query:
  assumes "args \<noteq> JNull" and "getProp args ''query'' = Inr q" and "\<not> truthy q"
  shows "snd (searchElastic env args executionId ts) = ts \<and>
         (\<forall>i. getProp args ''index'' = Inr i \<and> truthy i \<longrightarrow>
              fst (searchElastic env args executionId ts) =
                ''Error: Missing required parameter: query. The search_elastic tool requires both ''
                @ quoted ''index'' @ '' and '' @ quoted ''query'' @ '' parameters.'' \<and>
              includesStr (fst (searchElastic env args executionId ts)) ''query'') \<and>
         (\<forall>i. getProp args ''index'' = Inr i \<and> \<not> truthy i \<longrightarrow>
              fst (searchElastic env args executionId ts) =
                ''Error: Missing required parameter: index'') \<and>
         executeTool env \<lparr> tool_name = ''search_elastic'', tool_arguments = args \<rparr> ts =
           (Inr (fst (searchElastic env args (executionCounter ts + 1)
                        (ts\<lparr>executionCounter := executionCounter ts + 1\<rparr>))),
            ts\<lparr>executionCounter := executionCounter ts + 1\<rparr>) \<and>
         searchLog (snd (executeTool env
            \<lparr> tool_name = ''search_elastic'', tool_arguments = args \<rparr> ts)) = searchLog ts"
proof -
  obtain i where i: "getProp args ''index'' = Inr i"
    using assms(2) by (cases args) simp_all
  have direct: "\<And>executionId ts.
      searchElastic env args executionId ts =
        (if truthy i
         then ''Error: Missing required parameter: query. The search_elastic tool requires both ''
              @ quoted ''index'' @ '' and '' @ quoted ''query'' @ '' parameters.''
         else ''Error: Missing required parameter: index'', ts)"
    using i assms(2,3) by (simp add: searchElastic_def searchElasticTry_def)
  have tool: "executeTool env \<lparr> tool_name = ''search_elastic'', tool_arguments = args \<rparr> ts =
      (Inr (fst (searchElastic env args (executionCounter ts + 1)
                   (ts\<lparr>executionCounter := executionCounter ts + 1\<rparr>))),
       ts\<lparr>executionCounter := executionCounter ts + 1\<rparr>)"
    using executeTool_search_elastic [OF assms(1), of env ts]
    by (simp add: direct)
  have log: "searchLog (snd (executeTool env
      \<lparr> tool_name = ''search_elastic'', tool_arguments = args \<rparr> ts)) = searchLog ts"
    by (simp add: tool)
  show ?thesis
  proof (cases "truthy i")
    case True
    with i tool log show ?thesis
      using missing_query_text_includes_query by (simp add: direct)
  next
    case False
    with i tool log show ?thesis by (simp add: direct)
  qed
qed

theorem searchElastic_missing_query_witness:
  "JObj [(''index'', JStr ''codebase-store'')] \<noteq> JNull \<and>
   getProp (JObj [(''index'', JStr ''codebase-store'')]) ''query'' = Inr None \<and>
   \<not> truthy None \<and>
   getProp (JObj [(''index'', JStr ''codebase-store'')]) ''index'' = Inr (Some (JStr ''codebase-store'')) \<and>
   truthy (Some (JStr ''codebase-store'')) \<and>
   snd (searchElastic demoToolEnv (JObj [(''index'', JStr ''codebase-store'')]) 1 freshToolSystem)
     = freshToolSystem \<and>
   includesStr
     (fst (searchElastic demoToolEnv (JObj [(''index'', JStr ''codebase-store'')]) 1 freshToolSystem))
     ''query'' \<and>
   executeTool demoToolEnv
     \<lparr> tool_name = ''search_elastic'',
       tool_arguments = JObj [(''index'', JStr ''codebase-store'')] \<rparr> freshToolSystem =
     (Inr (''Error: Missing required parameter: query. The search_elastic tool requires both ''
           @ quoted ''index'' @ '' and '' @ quoted ''query'' @ '' parameters.''),
      \<lparr> executionCounter = 1, searchLog = [] \<rparr>)"
proof -
  have nn: "JObj [(''index'', JStr ''codebase-store'')] \<noteq> JNull"
    and q: "getProp (JObj [(''index'', JStr ''codebase-store'')]) ''query'' = Inr None"
    and nq: "\<not> truthy None"
    and i: "getProp (JObj [(''index'', JStr ''codebase-store'')]) ''index'' =
        Inr (Some (JStr ''codebase-store''))"
    and ti: "truthy (Some (JStr ''codebase-store''))"
    by simp_all
  note inst1 = searchElastic_missing_query [OF nn q nq, of demoToolEnv 1 freshToolSystem]
  note inst2 = searchElastic_missing_query [OF nn q nq, of demoToolEnv 1
      "freshToolSystem\<lparr>executionCounter := executionCounter freshToolSystem + 1\<rparr>"]
  from inst1 i ti have a: "snd (searchElastic demoToolEnv
        (JObj [(''index'', JStr ''codebase-store'')]) 1 freshToolSystem) = freshToolSystem"
    and b: "includesStr (fst (searchElastic demoToolEnv
        (JObj [(''index'', JStr ''codebase-store'')]) 1 freshToolSystem)) ''query''"
    and c: "executeTool demoToolEnv
        \<lparr> tool_name = ''search_elastic'',
          tool_arguments = JObj [(''index'', JStr ''codebase-store'')] \<rparr> freshToolSystem =
        (Inr (fst (searchElastic demoToolEnv (JObj [(''index'', JStr ''codebase-store'')])
                     (executionCounter freshToolSystem + 1)
                     (freshToolSystem\<lparr>executionCounter := executionCounter freshToolSystem + 1\<rparr>))),
         freshToolSystem\<lparr>executionCounter := executionCounter freshToolSystem + 1\<rparr>)"
    by blast+
  from inst2 i ti have d: "fst (searchElastic demoToolEnv (JObj [(''index'', JStr ''codebase-store'')]) 1
        (freshToolSystem\<lparr>executionCounter := executionCounter freshToolSystem + 1\<rparr>)) =
      ''Error: Missing required parameter: query. The search_elastic tool requires both ''
        @ quoted ''index'' @ '' and '' @ quoted ''query'' @ '' parameters.''"
    by blast
  have e: "executionCounter freshToolSystem + 1 = 1" by (simp add: freshToolSystem_def)
  from c d e have f: "executeTool demoToolEnv
        \<lparr> tool_name = ''search_elastic'',
          tool_arguments = JObj [(''index'', JStr ''codebase-store'')] \<rparr> freshToolSystem =
     (Inr (''Error: Missing required parameter: query. The search_elastic tool requires both ''
           @ quoted ''index'' @ '' and '' @ quoted ''query'' @ '' parameters.''),
      \<lparr> executionCounter = 1, searchLog = [] \<rparr>)"
    by (simp add: freshToolSystem_def)
  from nn q nq i ti a b f show ?thesis by blast
qed

text \<open>
  With \<open>null\<close> for arguments \<open>executeTool\<close> throws in \<open>logToolStart\<close>, before the tool
  runs; no request reaches the search backend then either.
\<close>

lemma search_elastic_null_arguments:
  "fst (executeTool env \<lparr> tool_name = ''search_elastic'', tool_arguments = JNull \<rparr> ts) =
     Inl (JsError ''Cannot convert undefined or null to object'') \<and>
   searchLog (snd (executeTool env \<lparr> tool_name = ''search_elastic'', tool_arguments = JNull \<rparr> ts))
     = searchLog ts"
  by (simp add: executeTool_def Let_def)

theorem searchElastic_missing_query_counterexample:
  "getProp (JObj []) ''query'' = Inr None \<and>
   fst (searchElastic demoToolEnv (JObj []) 1 freshToolSystem) =
     ''Error: Missing required parameter: index'' \<and>
   \<not> includesStr (fst (searchElastic demoToolEnv (JObj []) 1 freshToolSystem)) ''query''"
  by (simp add: searchElastic_def searchElasticTry_def)

lemma orElse_default: "orElse (Some (orElse a (JNum 10))) (JNum 10) = orElse a (JNum 10)"
  by (cases a) (simp_all add: orElse_def)

lemma searchElastic_request:
  assumes "getProp args ''index'' = Inr (Some i)" and "truthy (Some i)"
    and "getProp args ''query'' = Inr (Some q)" and "truthy (Some q)"
    and "getProp args ''size'' = Inr sz"
  shows "searchLog (snd (searchElastic env args executionId ts)) =
           searchLog ts @ [\<lparr> req_index = i, req_query = q,
                              req_size = orElse sz (JNum 10), req_from = JNum 0 \<rparr>]"
proof (cases "client_search env executionId
    \<lparr> req_index = i, req_query = q, req_size = orElse sz (JNum 10), req_from = JNum 0 \<rparr>")
  case (Inl e)
  with assms show ?thesis
    by (simp add: searchElastic_def searchElasticTry_def ElasticClient_search_def Let_def
        orElse_default) (cases sz; simp add: orElse_def)+
next
  case (Inr result)
  with assms show ?thesis
    by (simp add: searchElastic_def searchElasticTry_def ElasticClient_search_def Let_def
        orElse_default) (cases sz; simp add: orElse_def)+
qed

text \<open>
  C4. \<open>searchElastic\<close> sends the \<open>size\<close> argument on as it is: called with size 500 it
  issues the request with size 500, above the maximum of 100 that the description of the
  parameter in \<open>getTools\<close> states. Without a \<open>size\<close> argument the request has size 10.
\<close>

theorem searchElastic_size_not_capped:
  "searchLog (snd (searchElastic env
      (JObj [(''index'', JStr ''codebase-store''), (''query'', JObj [(''match_all'', JObj [])]),
             (''size'', JNum 500)]) executionId ts))
     = searchLog ts @
       [\<lparr> req_index = JStr ''codebase-store'', req_query = JObj [(''match_all'', JObj [])],
          req_size = JNum 500, req_from = JNum 0 \<rparr>] \<and>
   searchLog (snd (searchElastic env
      (JObj [(''index'', JStr ''codebase-store''), (''query'', JObj [(''match_all'', JObj [])])])
      executionId ts))
     = searchLog ts @
       [\<lparr> req_index = JStr ''codebase-store'', req_query = JObj [(''match_all'', JObj [])],
          req_size = JNum 10, req_from = JNum 0 \<rparr>]"
proof -
  have "orElse (Some (JNum 500)) (JNum 10) = JNum 500" and "orElse None (JNum 10) = JNum 10"
    by (simp_all add: orElse_def)
  then show ?thesis
    using searchElastic_request [of
        "JObj [(''index'', JStr ''codebase-store''), (''query'', JObj [(''match_all'', JObj [])]),
               (''size'', JNum 500)]"
        "JStr ''codebase-store''" "JObj [(''match_all'', JObj [])]" "Some (JNum 500)"
        env executionId ts]
      searchElastic_request [of
        "JObj [(''index'', JStr ''codebase-store''), (''query'', JObj [(''match_all'', JObj [])])]"
        "JStr ''codebase-store''" "JObj [(''match_all'', JObj [])]" None
        env executionId ts]
    by simp
qed


section \<open>Dispatch of a batch\<close>

lemma handleToolCalls_unparsable_head:
  assumes "JSON_parse env (function_arguments toolCall) = None"
  shows "handleToolCalls env (toolCall # rest) s = handleToolCalls env rest s"
  using assms by (cases s) simp

text \<open>
  C7. A request of the batch whose argument text does not parse is passed over:
  \<open>handleToolCalls\<close> does to the batch what it does to the batch without that request, so
  no tool is executed for it, no message is appended for it, nothing is thrown because
  of it, and the requests after it are handled as they would be without it. A batch in
  which no request parses leaves the agent and the tool system unchanged and throws
  nothing, so the loop goes on with its next pass.
\<close>

theorem handleToolCalls_skips_unparsable:
  assumes "JSON_parse env (function_arguments toolCall) = None"
  shows "handleToolCalls env (before @ toolCall # after) s =
           handleToolCalls env (before @ after) s \<and>
         ((\<forall>c \<in> set batch. JSON_parse env (function_arguments c) = None) \<longrightarrow>
            handleToolCalls env batch s = (None, s))"
proof
  show "handleToolCalls env (before @ toolCall # after) s =
      handleToolCalls env (before @ after) s"
  proof (induction before arbitrary: s)
    case Nil
    show ?case using assms by (simp add: handleToolCalls_unparsable_head)
  next
    case (Cons c cs)
    obtain st ts where s: "s = (st, ts)" by (cases s)
    show ?case
    proof (cases "JSON_parse env (function_arguments c)")
      case None
      then show ?thesis using Cons.IH [of s] by (simp add: s)
    next
      case (Some toolArgs)
      obtain outcome ts' where ex: "executeTool (toolEnv env)
          \<lparr> tool_name = function_name c, tool_arguments = toolArgs \<rparr> ts = (outcome, ts')"
        by (cases "executeTool (toolEnv env)
          \<lparr> tool_name = function_name c, tool_arguments = toolArgs \<rparr> ts")
      show ?thesis
        using Some ex Cons.IH by (simp add: s Let_def)
    qed
  qed
  show "(\<forall>c \<in> set batch. JSON_parse env (function_arguments c) = None) \<longrightarrow>
      handleToolCalls env batch s = (None, s)"
  proof (induction batch)
    case Nil
    show ?case by (cases s) simp
  next
    case (Cons c cs)
    then show ?case by (cases s) simp
  qed
qed

lemma searchElastic_counter:
  "executionCounter (snd (searchElastic env args executionId ts)) = executionCounter ts"
  by (simp add: searchElastic_def searchElasticTry_def ElasticClient_search_def Let_def
      split: sum.split prod.split)

lemma simpleSearch_counter:
  "executionCounter (snd (simpleSearch env args executionId ts)) = executionCounter ts"
  by (simp add: simpleSearch_def simpleSearchTry_def ElasticClient_search_def Let_def
      split: sum.split prod.split)

lemma executeTool_counter:
  "executionCounter (snd (executeTool env toolCall ts)) = executionCounter ts + 1"
  using searchElastic_counter [of env "tool_arguments toolCall" "executionCounter ts + 1"
      "ts\<lparr>executionCounter := executionCounter ts + 1\<rparr>"]
    simpleSearch_counter [of env "tool_arguments toolCall" "executionCounter ts + 1"
      "ts\<lparr>executionCounter := executionCounter ts + 1\<rparr>"]
  by (simp add: executeTool_def Let_def case_prod_beta)

lemma handleToolCalls_parsed_other:
  assumes "JSON_parse env (function_arguments c) = Some toolArgs"
    and "function_name c \<noteq> ''reply''"
    and "executeTool (toolEnv env)
           \<lparr> tool_name = function_name c, tool_arguments = toolArgs \<rparr> ts = (outcome, ts')"
  shows "\<exists>m. role m = Tool \<and> tool_call_id m = Some (call_id c) \<and>
             (\<forall>rest. handleToolCalls env (c # rest) (st, ts) =
                handleToolCalls env rest (st\<lparr>messages := messages st @ [m]\<rparr>, ts'))"
proof -
  let ?m = "\<lparr> role = Tool,
      content = Some (case outcome of
                        Inr r \<Rightarrow> r
                      | Inl toolError \<Rightarrow>
                          ''Error executing '' @ function_name c @ '': '' @ errorMessage toolError),
      tool_calls = None, tool_call_id = Some (call_id c), name = Some (function_name c) \<rparr>"
  have "\<forall>rest. handleToolCalls env (c # rest) (st, ts) =
      handleToolCalls env rest (st\<lparr>messages := messages st @ [?m]\<rparr>, ts')"
    using assms by (simp add: Let_def)
  then show ?thesis by (intro exI [of _ ?m]) simp
qed

lemma handleToolCalls_parsed_reply:
  assumes "JSON_parse env (function_arguments c) = Some toolArgs"
    and "function_name c = ''reply''"
    and "executeTool (toolEnv env)
           \<lparr> tool_name = function_name c, tool_arguments = toolArgs \<rparr> ts = (outcome, ts')"
  shows "handleToolCalls env (c # rest) (st, ts) =
           (case getProp toolArgs ''message'' of
              Inl e \<Rightarrow> (Some e, st, ts')
            | Inr message \<Rightarrow> (None, st\<lparr>finalResponse := message, isComplete := True\<rparr>, ts'))"
  using assms by (simp add: Let_def)

lemma handleToolCalls_grows:
  assumes "handleToolCalls env calls (st, ts) = (err, st', ts')"
  shows "length (messages st) \<le> length (messages st') \<and>
         length (messages st') \<le> length (messages st) + length calls"
  using assms
proof (induction calls arbitrary: st ts)
  case Nil
  then show ?case by simp
next
  case (Cons c cs)
  show ?case
  proof (cases "JSON_parse env (function_arguments c)")
    case None
    with Cons.prems have "handleToolCalls env cs (st, ts) = (err, st', ts')" by simp
    from Cons.IH [OF this] show ?thesis by simp
  next
    case (Some toolArgs)
    obtain outcome ts1 where ex: "executeTool (toolEnv env)
        \<lparr> tool_name = function_name c, tool_arguments = toolArgs \<rparr> ts = (outcome, ts1)"
      by (cases "executeTool (toolEnv env)
        \<lparr> tool_name = function_name c, tool_arguments = toolArgs \<rparr> ts")
    show ?thesis
    proof (cases "function_name c = ''reply''")
      case True
      from handleToolCalls_parsed_reply [OF Some True ex, where st = st and rest = cs] Cons.prems
      show ?thesis by (auto split: sum.splits)
    next
      case False
      from handleToolCalls_parsed_other [OF Some False ex, where st = st]
      obtain m where "handleToolCalls env (c # cs) (st, ts) =
          handleToolCalls env cs (st\<lparr>messages := messages st @ [m]\<rparr>, ts1)" by blast
      with Cons.prems have "handleToolCalls env cs (st\<lparr>messages := messages st @ [m]\<rparr>, ts1) =
          (err, st', ts')" by simp
      from Cons.IH [OF this] show ?thesis by simp
    qed
  qed
qed

lemma handleToolCalls_no_reply:
  assumes "\<forall>c \<in> set calls. function_name c \<noteq> ''reply''"
  shows "\<exists>st' ts'. handleToolCalls env calls (st, ts) = (None, st', ts') \<and>
           isComplete st' = isComplete st \<and> finalResponse st' = finalResponse st"
  using assms
proof (induction calls arbitrary: st ts)
  case Nil
  then show ?case by simp
next
  case (Cons c cs)
  then have rest: "\<forall>c \<in> set cs. function_name c \<noteq> ''reply''"
    and head: "function_name c \<noteq> ''reply''" by simp_all
  show ?case
  proof (cases "JSON_parse env (function_arguments c)")
    case None
    with Cons.IH [OF rest, of st ts] show ?thesis by simp
  next
    case (Some toolArgs)
    obtain outcome ts1 where ex: "executeTool (toolEnv env)
        \<lparr> tool_name = function_name c, tool_arguments = toolArgs \<rparr> ts = (outcome, ts1)"
      by (cases "executeTool (toolEnv env)
        \<lparr> tool_name = function_name c, tool_arguments = toolArgs \<rparr> ts")
    from handleToolCalls_parsed_other [OF Some head ex, where st = st]
    obtain m where step: "handleToolCalls env (c # cs) (st, ts) =
        handleToolCalls env cs (st\<lparr>messages := messages st @ [m]\<rparr>, ts1)" by blast
    from Cons.IH [OF rest, of "st\<lparr>messages := messages st @ [m]\<rparr>" ts1] step
    show ?thesis by auto
  qed
qed

lemma handleToolCalls_reply_batch:
  assumes name: "function_name replyCall = ''reply''"
    and parse: "JSON_parse env (function_arguments replyCall) = Some toolArgs"
    and msg: "getProp toolArgs ''message'' = Inr message"
    and first: "\<forall>c \<in> set before. function_name c = ''reply'' \<longrightarrow>
                  JSON_parse env (function_arguments c) = None"
  shows "\<exists>st' ts'.
           handleToolCalls env (before @ replyCall # after) (st, ts) = (None, st', ts') \<and>
           handleToolCalls env (before @ [replyCall]) (st, ts) = (None, st', ts') \<and>
           isComplete st' \<and> finalResponse st' = message \<and>
           length (messages st') = length (messages st) +
             length (filter (\<lambda>c. JSON_parse env (function_arguments c) \<noteq> None) before) \<and>
           executionCounter ts' = executionCounter ts +
             length (filter (\<lambda>c. JSON_parse env (function_arguments c) \<noteq> None) before) + 1"
  using first
proof (induction before arbitrary: st ts)
  case Nil
  obtain outcome ts1 where ex: "executeTool (toolEnv env)
      \<lparr> tool_name = function_name replyCall, tool_arguments = toolArgs \<rparr> ts = (outcome, ts1)"
    by (cases "executeTool (toolEnv env)
      \<lparr> tool_name = function_name replyCall, tool_arguments = toolArgs \<rparr> ts")
  have counter: "executionCounter ts1 = executionCounter ts + 1"
    using executeTool_counter [of "toolEnv env"
        "\<lparr> tool_name = function_name replyCall, tool_arguments = toolArgs \<rparr>" ts] ex
    by simp
  from handleToolCalls_parsed_reply [OF parse name ex, where st = st and rest = after]
    handleToolCalls_parsed_reply [OF parse name ex, where st = st and rest = "[]"] msg counter
  show ?case by simp
next
  case (Cons c cs)
  then have rest: "\<forall>c \<in> set cs. function_name c = ''reply'' \<longrightarrow>
      JSON_parse env (function_arguments c) = None" by simp
  show ?case
  proof (cases "JSON_parse env (function_arguments c)")
    case None
    with Cons.IH [OF rest, of st ts] show ?thesis by simp
  next
    case (Some a)
    with Cons.prems have other: "function_name c \<noteq> ''reply''" by auto
    obtain outcome ts1 where ex: "executeTool (toolEnv env)
        \<lparr> tool_name = function_name c, tool_arguments = a \<rparr> ts = (outcome, ts1)"
      by (cases "executeTool (toolEnv env)
        \<lparr> tool_name = function_name c, tool_arguments = a \<rparr> ts")
    have counter: "executionCounter ts1 = executionCounter ts + 1"
      using executeTool_counter [of "toolEnv env"
          "\<lparr> tool_name = function_name c, tool_arguments = a \<rparr>" ts] ex
      by simp
    from handleToolCalls_parsed_other [OF Some other ex, where st = st]
    obtain m where step: "\<And>rest. handleToolCalls env (c # rest) (st, ts) =
        handleToolCalls env rest (st\<lparr>messages := messages st @ [m]\<rparr>, ts1)"
      by blast
    from Cons.IH [OF rest, of "st\<lparr>messages := messages st @ [m]\<rparr>" ts1]
    show ?thesis using Some counter by (simp add: step del: handleToolCalls.simps)
  qed
qed


section \<open>The loop\<close>

lemma turnTry_provider_error:
  assumes "streamCompletion env (map toProviderMessage (messages st)) = Inl e"
  shows "turnTry env (st, ts) = (Some e, st, ts)"
  using assms by (simp add: turnTry_def callAIProvider_def)

lemma turnTry_batch:
  assumes "streamCompletion env (map toProviderMessage (messages st)) = Inr response"
    and "response_tool_calls response = Some calls" and "calls \<noteq> []"
  shows "turnTry env (st, ts) =
           (case handleToolCalls env calls
                   (st\<lparr>messages := messages st @ [assistantMessage response]\<rparr>, ts) of
              (Some e, st2, ts2) \<Rightarrow> (Some e, st2, ts2)
            | (None, st2, ts2) \<Rightarrow> (None, safetyCheck st2, ts2))"
  using assms by (simp add: turnTry_def callAIProvider_def)

lemma turnTry_no_batch:
  assumes "streamCompletion env (map toProviderMessage (messages st)) = Inr response"
    and "response_tool_calls response = None \<or> response_tool_calls response = Some []"
  shows "turnTry env (st, ts) =
           (None,
            safetyCheck
              (if response_content response \<noteq> []
               then st\<lparr>messages := messages st @ [assistantMessage response],
                       finalResponse := Some (JStr (response_content response)),
                       isComplete := True\<rparr>
               else st\<lparr>messages := messages st @ [assistantMessage response]\<rparr>), ts)"
  using assms by (auto simp add: turnTry_def callAIProvider_def)

lemma safetyCheck_cases:
  "(20 < length (messages st) \<and>
      safetyCheck st = st\<lparr>finalResponse := Some (JStr fallbackMessage), isComplete := True\<rparr>) \<or>
   (length (messages st) \<le> 20 \<and> safetyCheck st = st)"
  by (simp add: safetyCheck_def)

lemma safetyCheck_messages: "messages (safetyCheck st) = messages st"
  by (simp add: safetyCheck_def)

lemma safetyCheck_progress:
  "isComplete (safetyCheck st) \<or> length (messages (safetyCheck st)) \<le> 20"
  by (simp add: safetyCheck_def)

lemma turnTry_progress:
  assumes "turnTry env (st, ts) = (None, st', ts')"
  shows "length (messages st) < length (messages st') \<and>
         (isComplete st' \<or> length (messages st') \<le> 20)"
proof (cases "streamCompletion env (map toProviderMessage (messages st))")
  case (Inl e)
  from turnTry_provider_error [OF Inl, of ts] assms show ?thesis by simp
next
  case (Inr response)
  show ?thesis
  proof (cases "response_tool_calls response = None \<or> response_tool_calls response = Some []")
    case True
    from turnTry_no_batch [OF Inr True, of ts] assms
    have "st' = safetyCheck
        (if response_content response \<noteq> []
         then st\<lparr>messages := messages st @ [assistantMessage response],
                 finalResponse := Some (JStr (response_content response)),
                 isComplete := True\<rparr>
         else st\<lparr>messages := messages st @ [assistantMessage response]\<rparr>)"
      by simp
    then show ?thesis
      using safetyCheck_progress [of "if response_content response \<noteq> []
         then st\<lparr>messages := messages st @ [assistantMessage response],
                 finalResponse := Some (JStr (response_content response)),
                 isComplete := True\<rparr>
         else st\<lparr>messages := messages st @ [assistantMessage response]\<rparr>"]
      by (simp add: safetyCheck_messages)
  next
    case False
    then obtain calls where calls: "response_tool_calls response = Some calls" "calls \<noteq> []"
      by auto
    obtain err st2 ts2 where h: "handleToolCalls env calls
        (st\<lparr>messages := messages st @ [assistantMessage response]\<rparr>, ts) = (err, st2, ts2)"
      by (cases "handleToolCalls env calls
        (st\<lparr>messages := messages st @ [assistantMessage response]\<rparr>, ts)")
    from turnTry_batch [OF Inr calls, of ts] h assms
    have err: "err = None" and st': "st' = safetyCheck st2"
      by (cases err; simp)+
    from handleToolCalls_grows [OF h]
    have "length (messages st) < length (messages st2)" by simp
    then show ?thesis
      using st' safetyCheck_progress [of st2] by (simp add: safetyCheck_messages)
  qed
qed

lemma turn_progress:
  assumes "turn env (st, ts) = (st', ts')"
  shows "isComplete st' \<or>
         (length (messages st) < length (messages st') \<and> length (messages st') \<le> 20)"
proof -
  obtain err st1 ts1 where t: "turnTry env (st, ts) = (err, st1, ts1)"
    by (cases "turnTry env (st, ts)")
  show ?thesis
  proof (cases err)
    case None
    with t assms have "st' = st1" by (simp add: turn_def)
    with turnTry_progress [of env st ts st1 ts1] t None show ?thesis by auto
  next
    case (Some e)
    with t assms have "st' = catchTurnError e st1" by (simp add: turn_def)
    then show ?thesis by (simp add: catchTurnError_def)
  qed
qed

lemma processLoop_complete:
  assumes "isComplete (fst s)"
  shows "processLoop env s = Some s"
  using assms by (subst processLoop.simps) simp

lemma processLoop_step:
  assumes "\<not> isComplete (fst s)"
  shows "processLoop env s = processLoop env (turn env s)"
  using assms by (subst processLoop.simps) simp

lemma processLoop_terminates:
  "\<exists>s'. processLoop env s = Some s' \<and> isComplete (fst s')"
proof (induction s rule: measure_induct_rule [where f = "\<lambda>s. 21 - length (messages (fst s))"])
  case (less s)
  show ?case
  proof (cases "isComplete (fst s)")
    case True
    then show ?thesis by (simp add: processLoop_complete)
  next
    case False
    obtain st ts where s: "s = (st, ts)" by (cases s)
    obtain st' ts' where t: "turn env (st, ts) = (st', ts')" by (cases "turn env (st, ts)")
    from turn_progress [OF t]
    consider "isComplete st'"
      | "length (messages st) < length (messages st')" "length (messages st') \<le> 20"
      by blast
    then have "\<exists>s'. processLoop env (st', ts') = Some s' \<and> isComplete (fst s')"
    proof cases
      case 1
      then show ?thesis by (simp add: processLoop_complete)
    next
      case 2
      then have "21 - length (messages (fst (st', ts'))) < 21 - length (messages (fst s))"
        by (simp add: s)
      from less.IH [OF this] show ?thesis .
    qed
    with False s t show ?thesis by (simp add: processLoop_step)
  qed
qed


lemma turn_error:
  assumes "turnTry env s = (Some e, st1, ts1)"
  shows "turn env s = (catchTurnError e st1, ts1)"
  using assms by (simp add: turn_def)

lemma processQuery_loop:
  assumes "processLoop env (initializeState userQuery, ts) = Some (st, ts')"
  shows "processQuery env userQuery ts = Some (returnedValue st, st, ts')"
  using assms by (simp add: processQuery_def)

lemma initializeState_facts:
  "\<not> isComplete (initializeState userQuery)"
  "length (messages (initializeState userQuery)) = 2"
  by (simp_all add: initializeState_def)

text \<open>
  C8. \<open>processQuery\<close> always returns: for every provider, tool surroundings and query the
  loop ends in a completed state, and the value returned is the final response, or
  \<open>'No response generated.'\<close> when none was set. An error thrown in a pass of the loop,
  by the provider call or by the dispatch, is caught there: the pass ends with the
  completion flag set and the final response \<open>An error occurred while processing your
  request: \<close> followed by the message of the error, the loop ends with that state, and
  that text is what is returned.
\<close>

theorem processQuery_never_throws:
  "(\<exists>st ts'. processQuery env userQuery ts = Some (returnedValue st, st, ts') \<and> isComplete st) \<and>
   (finalResponse stB = None \<longrightarrow> returnedValue stB = JStr noResponse) \<and>
   (streamCompletion env (map toProviderMessage (messages st)) = Inl e \<longrightarrow>
      turnTry env (st, ts) = (Some e, st, ts)) \<and>
   (\<not> isComplete (fst s) \<and> turnTry env s = (Some e, stA, tsA) \<longrightarrow>
      turn env s = (catchTurnError e stA, tsA) \<and>
      processLoop env s = Some (catchTurnError e stA, tsA) \<and>
      isComplete (catchTurnError e stA) \<and>
      finalResponse (catchTurnError e stA) =
        Some (JStr (''An error occurred while processing your request: '' @ errorMessage e)) \<and>
      returnedValue (catchTurnError e stA) =
        JStr (''An error occurred while processing your request: '' @ errorMessage e))"
proof (intro conjI impI)
  from processLoop_terminates [of env "(initializeState userQuery, ts)"]
  obtain st' ts' where "processLoop env (initializeState userQuery, ts) = Some (st', ts')"
    and "isComplete st'" by auto
  with processQuery_loop [of env userQuery ts st' ts']
  show "\<exists>st ts'. processQuery env userQuery ts = Some (returnedValue st, st, ts') \<and> isComplete st"
    by blast
next
  assume "finalResponse stB = None"
  then show "returnedValue stB = JStr noResponse"
    by (simp add: returnedValue_def orElse_def)
next
  assume "streamCompletion env (map toProviderMessage (messages st)) = Inl e"
  then show "turnTry env (st, ts) = (Some e, st, ts)" by (rule turnTry_provider_error)
next
  assume h: "\<not> isComplete (fst s) \<and> turnTry env s = (Some e, stA, tsA)"
  then show t: "turn env s = (catchTurnError e stA, tsA)" by (simp add: turn_error)
  show c: "isComplete (catchTurnError e stA)" by (simp add: catchTurnError_def)
  from h t c show "processLoop env s = Some (catchTurnError e stA, tsA)"
    by (simp add: processLoop_step processLoop_complete)
  show "finalResponse (catchTurnError e stA) =
      Some (JStr (''An error occurred while processing your request: '' @ errorMessage e))"
    by (simp add: catchTurnError_def)
  show "returnedValue (catchTurnError e stA) =
      JStr (''An error occurred while processing your request: '' @ errorMessage e)"
    by (simp add: catchTurnError_def returnedValue_def orElse_def)
qed

theorem processQuery_never_throws_witness:
  "streamCompletion (demoAgentEnv failingProvider)
     (map toProviderMessage (messages (initializeState ''hello''))) = Inl (JsError ''network down'') \<and>
   answerOf (processQuery (demoAgentEnv failingProvider) ''hello'' freshToolSystem) =
     Some (JStr ''An error occurred while processing your request: network down'')"
proof -
  let ?env = "demoAgentEnv failingProvider"
  let ?s = "(initializeState ''hello'', freshToolSystem)"
  let ?e = "JsError ''network down''"
  have fails: "streamCompletion ?env (map toProviderMessage (messages (initializeState ''hello'')))
      = Inl ?e"
    by (simp add: demoAgentEnv_def failingProvider_def)
  note inst = processQuery_never_throws [where env = ?env and ts = freshToolSystem
      and st = "initializeState ''hello''" and e = ?e and s = ?s
      and stA = "initializeState ''hello''" and tsA = freshToolSystem]
  from inst fails have thrown: "turnTry ?env ?s = (Some ?e, initializeState ''hello'', freshToolSystem)"
    by blast
  have running: "\<not> isComplete (fst ?s)" by (simp add: initializeState_facts)
  from inst running thrown have
    loop: "processLoop ?env ?s = Some (catchTurnError ?e (initializeState ''hello''), freshToolSystem)"
    and ret: "returnedValue (catchTurnError ?e (initializeState ''hello'')) =
      JStr (''An error occurred while processing your request: '' @ errorMessage ?e)"
    by blast+
  from processQuery_loop [OF loop] ret fails show ?thesis
    by (simp add: answerOf_def)
qed


section \<open>The example surroundings evaluated\<close>

lemma demoParse_facts:
  "demoParse ''{}'' = Some (JObj [])"
  "demoParse ''null'' = Some JNull"
  "demoParse (jsonMessage ''done'') = Some (JObj [(''message'', JStr ''done'')])"
  "demoParse (jsonMessage '''') = Some (JObj [(''message'', JStr '''')])"
  "demoParse ''{index:'' = None"
  by (simp_all add: demoParse_def jsonMessage_def)

lemma demoAgentEnv_facts:
  "JSON_parse (demoAgentEnv p) = demoParse"
  "toolEnv (demoAgentEnv p) = demoToolEnv"
  "streamCompletion (demoAgentEnv p) = p"
  by (simp_all add: demoAgentEnv_def)

lemma demo_calls_parse:
  "JSON_parse (demoAgentEnv p) (function_arguments listCall) = Some (JObj [])"
  "JSON_parse (demoAgentEnv p) (function_arguments brokenCall) = None"
  "JSON_parse (demoAgentEnv p) (function_arguments replyNull) = Some JNull"
  "JSON_parse (demoAgentEnv p) (function_arguments (replyWith ''done'')) =
     Some (JObj [(''message'', JStr ''done'')])"
  "JSON_parse (demoAgentEnv p) (function_arguments (replyWith '''')) =
     Some (JObj [(''message'', JStr '''')])"
  by (simp_all add: demoAgentEnv_facts demoParse_facts listCall_def brokenCall_def
      replyNull_def replyWith_def)

lemma demo_calls_names:
  "function_name listCall = ''list_indices''"
  "function_name brokenCall = ''list_indices''"
  "function_name replyNull = ''reply''"
  "function_name (replyWith m) = ''reply''"
  by (simp_all add: listCall_def brokenCall_def replyNull_def replyWith_def)

theorem handleToolCalls_skips_unparsable_witness:
  "JSON_parse (demoAgentEnv failingProvider) (function_arguments brokenCall) = None \<and>
   handleToolCalls (demoAgentEnv failingProvider) ([listCall] @ brokenCall # [listCall])
       (initializeState ''q'', freshToolSystem) =
     handleToolCalls (demoAgentEnv failingProvider) ([listCall] @ [listCall])
       (initializeState ''q'', freshToolSystem) \<and>
   handleToolCalls (demoAgentEnv failingProvider) [brokenCall, brokenCall]
       (initializeState ''q'', freshToolSystem) = (None, initializeState ''q'', freshToolSystem)"
proof -
  have bad: "JSON_parse (demoAgentEnv failingProvider) (function_arguments brokenCall) = None"
    by (rule demo_calls_parse)
  have all: "\<forall>c \<in> set [brokenCall, brokenCall].
      JSON_parse (demoAgentEnv failingProvider) (function_arguments c) = None"
    using bad by simp
  from handleToolCalls_skips_unparsable [OF bad, where before = "[listCall]"
      and after = "[listCall]" and batch = "[brokenCall, brokenCall]"
      and s = "(initializeState ''q'', freshToolSystem)"] bad all
  show ?thesis by blast
qed


section \<open>The message ceiling\<close>

lemma turn_without_reply:
  assumes provider: "streamCompletion env (map toProviderMessage (messages st)) = Inr response"
    and batch: "response_tool_calls response = Some calls" "calls \<noteq> []"
    and noReply: "\<forall>c \<in> set calls. function_name c \<noteq> ''reply''"
  shows "\<exists>st2 ts2. turn env (st, ts) = (safetyCheck st2, ts2) \<and>
           isComplete st2 = isComplete st \<and> finalResponse st2 = finalResponse st \<and>
           length (messages st) < length (messages st2) \<and>
           length (messages st2) \<le> length (messages st) + 1 + length calls"
proof -
  let ?st1 = "st\<lparr>messages := messages st @ [assistantMessage response]\<rparr>"
  from handleToolCalls_no_reply [OF noReply, of env ?st1 ts]
  obtain st2 ts2 where h: "handleToolCalls env calls (?st1, ts) = (None, st2, ts2)"
    and keep: "isComplete st2 = isComplete st" "finalResponse st2 = finalResponse st"
    by auto
  from handleToolCalls_grows [OF h]
  have len: "length (messages st) < length (messages st2)"
    "length (messages st2) \<le> length (messages st) + 1 + length calls"
    by simp_all
  from turnTry_batch [OF provider batch, of ts] h
  have "turn env (st, ts) = (safetyCheck st2, ts2)" by (simp add: turn_def)
  with keep len show ?thesis by blast
qed

lemma forced_by_ceiling:
  assumes always: "\<forall>conversation. \<exists>response calls.
      streamCompletion env conversation = Inr response \<and>
      response_tool_calls response = Some calls \<and> calls \<noteq> [] \<and> length calls \<le> k \<and>
      (\<forall>c \<in> set calls. function_name c \<noteq> ''reply'')"
  shows "\<not> isComplete (fst s) \<Longrightarrow> length (messages (fst s)) \<le> 20 \<Longrightarrow>
         \<exists>st' ts'. processLoop env s = Some (st', ts') \<and> isComplete st' \<and>
           finalResponse st' = Some (JStr fallbackMessage) \<and>
           20 < length (messages st') \<and> length (messages st') \<le> 21 + k"
proof (induction s rule: measure_induct_rule [where f = "\<lambda>s. 21 - length (messages (fst s))"])
  case (less s)
  obtain st ts where s: "s = (st, ts)" by (cases s)
  from always obtain response calls where
    provider: "streamCompletion env (map toProviderMessage (messages st)) = Inr response"
    and batch: "response_tool_calls response = Some calls" "calls \<noteq> []"
    and size: "length calls \<le> k"
    and noReply: "\<forall>c \<in> set calls. function_name c \<noteq> ''reply''"
    by blast
  from turn_without_reply [OF provider batch noReply, of ts]
  obtain st2 ts2 where t: "turn env (st, ts) = (safetyCheck st2, ts2)"
    and keep: "isComplete st2 = isComplete st"
    and len: "length (messages st) < length (messages st2)"
      "length (messages st2) \<le> length (messages st) + 1 + length calls"
    by blast
  have running: "\<not> isComplete st" using less.prems(1) by (simp add: s)
  have step: "processLoop env s = processLoop env (safetyCheck st2, ts2)"
    using running t by (simp add: s processLoop_step)
  show ?case
  proof (cases "20 < length (messages st2)")
    case True
    then have forced: "safetyCheck st2 =
        st2\<lparr>finalResponse := Some (JStr fallbackMessage), isComplete := True\<rparr>"
      by (simp add: safetyCheck_def)
    have "length (messages st2) \<le> 21 + k"
      using len(2) size less.prems(2) by (simp add: s)
    with True forced step show ?thesis
      by (simp add: processLoop_complete)
  next
    case False
    then have same: "safetyCheck st2 = st2" by (simp add: safetyCheck_def)
    have smaller: "21 - length (messages (fst (st2, ts2))) < 21 - length (messages (fst s))"
      using False len(1) by (simp add: s)
    have "\<not> isComplete (fst (st2, ts2))" using keep running by simp
    moreover have "length (messages (fst (st2, ts2))) \<le> 20" using False by simp
    ultimately show ?thesis
      using less.IH [OF smaller] step same by simp
  qed
qed

text \<open>
  C2, amended. When every answer of the provider is a non-empty batch of tool calls, none
  of them a \<open>reply\<close> and at most \<open>k\<close> in a batch, \<open>processQuery\<close> returns the fixed
  fallback message: the loop is ended by the safety check, with the completion flag set.
  The check runs once per pass, after the whole batch, so the conversation then holds
  more than 20 and at most \<open>21 + k\<close> messages.
\<close>

theorem processQuery_forced_by_ceiling:
  assumes "\<forall>conversation. \<exists>response calls.
      streamCompletion env conversation = Inr response \<and>
      response_tool_calls response = Some calls \<and> calls \<noteq> [] \<and> length calls \<le> k \<and>
      (\<forall>c \<in> set calls. function_name c \<noteq> ''reply'')"
  shows "\<exists>st ts'. processQuery env userQuery ts = Some (JStr fallbackMessage, st, ts') \<and>
           isComplete st \<and> finalResponse st = Some (JStr fallbackMessage) \<and>
           20 < length (messages st) \<and> length (messages st) \<le> 21 + k"
proof -
  from forced_by_ceiling [OF assms, of "(initializeState userQuery, ts)"]
  obtain st ts' where loop: "processLoop env (initializeState userQuery, ts) = Some (st, ts')"
    and facts: "isComplete st" "finalResponse st = Some (JStr fallbackMessage)"
      "20 < length (messages st)" "length (messages st) \<le> 21 + k"
    by (auto simp add: initializeState_facts)
  have "returnedValue st = JStr fallbackMessage"
    using facts(2) by (simp add: returnedValue_def orElse_def fallbackMessage_def)
  with processQuery_loop [OF loop] facts show ?thesis by auto
qed

lemma constant_batch_provider:
  "streamCompletion (demoAgentEnv (constantProvider (batchResponse calls))) conversation =
     Inr (batchResponse calls)"
  "response_tool_calls (batchResponse calls) = Some calls"
  by (simp_all add: demoAgentEnv_def constantProvider_def batchResponse_def)

lemma list_only_turn:
  "\<exists>st2 ts2. turn (demoAgentEnv (constantProvider (batchResponse [listCall]))) (st, ts) =
       (safetyCheck st2, ts2) \<and>
     isComplete st2 = isComplete st \<and> length (messages st2) = length (messages st) + 2"
proof -
  let ?env = "demoAgentEnv (constantProvider (batchResponse [listCall]))"
  let ?st1 = "st\<lparr>messages := messages st @ [assistantMessage (batchResponse [listCall])]\<rparr>"
  obtain outcome ts1 where ex: "executeTool (toolEnv ?env)
      \<lparr> tool_name = function_name listCall, tool_arguments = JObj [] \<rparr> ts = (outcome, ts1)"
    by (cases "executeTool (toolEnv ?env)
      \<lparr> tool_name = function_name listCall, tool_arguments = JObj [] \<rparr> ts")
  have other: "function_name listCall \<noteq> ''reply''" by (simp add: demo_calls_names)
  from handleToolCalls_parsed_other [OF demo_calls_parse(1) other ex, where st = ?st1]
  obtain m where "handleToolCalls ?env [listCall] (?st1, ts) =
      (None, ?st1\<lparr>messages := messages ?st1 @ [m]\<rparr>, ts1)"
    by auto
  moreover have "turnTry ?env (st, ts) =
      (case handleToolCalls ?env [listCall] (?st1, ts) of
         (Some e, st2, ts2) \<Rightarrow> (Some e, st2, ts2)
       | (None, st2, ts2) \<Rightarrow> (None, safetyCheck st2, ts2))"
    by (rule turnTry_batch [OF constant_batch_provider]) simp
  ultimately have "turn ?env (st, ts) = (safetyCheck (?st1\<lparr>messages := messages ?st1 @ [m]\<rparr>), ts1)"
    by (simp add: turn_def)
  then show ?thesis by (intro exI conjI) (assumption, simp_all)
qed

lemma list_only_run:
  assumes "\<not> isComplete st" and "length (messages st) + 2 * n = 20"
  shows "\<exists>st' ts'. processLoop (demoAgentEnv (constantProvider (batchResponse [listCall])))
             (st, ts) = Some (st', ts') \<and>
           finalResponse st' = Some (JStr fallbackMessage) \<and> length (messages st') = 22"
  using assms
proof (induction n arbitrary: st ts)
  case 0
  from list_only_turn [of st ts] obtain st2 ts2 where
    t: "turn (demoAgentEnv (constantProvider (batchResponse [listCall]))) (st, ts) =
        (safetyCheck st2, ts2)"
    and len: "length (messages st2) = length (messages st) + 2" by blast
  from len 0 have "safetyCheck st2 =
      st2\<lparr>finalResponse := Some (JStr fallbackMessage), isComplete := True\<rparr>"
    by (simp add: safetyCheck_def)
  with t len 0 show ?case
    by (simp add: processLoop_step processLoop_complete)
next
  case (Suc n)
  from list_only_turn [of st ts] obtain st2 ts2 where
    t: "turn (demoAgentEnv (constantProvider (batchResponse [listCall]))) (st, ts) =
        (safetyCheck st2, ts2)"
    and keep: "isComplete st2 = isComplete st"
    and len: "length (messages st2) = length (messages st) + 2" by blast
  from len Suc.prems have same: "safetyCheck st2 = st2" by (simp add: safetyCheck_def)
  have "\<not> isComplete st2" and "length (messages st2) + 2 * n = 20"
    using keep len Suc.prems by simp_all
  from Suc.IH [OF this, of ts2] t same Suc.prems(1) show ?case
    by (simp add: processLoop_step)
qed

theorem processQuery_forced_by_ceiling_witness:
  "(\<forall>conversation. \<exists>response calls.
      streamCompletion (demoAgentEnv (constantProvider (batchResponse [listCall]))) conversation
        = Inr response \<and>
      response_tool_calls response = Some calls \<and> calls \<noteq> [] \<and> length calls \<le> 1 \<and>
      (\<forall>c \<in> set calls. function_name c \<noteq> ''reply'')) \<and>
   answerOf (processQuery (demoAgentEnv (constantProvider (batchResponse [listCall])))
      ''list the available data'' freshToolSystem) = Some (JStr fallbackMessage)"
proof -
  have always: "\<forall>conversation. \<exists>response calls.
      streamCompletion (demoAgentEnv (constantProvider (batchResponse [listCall]))) conversation
        = Inr response \<and>
      response_tool_calls response = Some calls \<and> calls \<noteq> [] \<and> length calls \<le> 1 \<and>
      (\<forall>c \<in> set calls. function_name c \<noteq> ''reply'')"
    by (simp add: constant_batch_provider demo_calls_names)
  from processQuery_forced_by_ceiling [OF always, of "''list the available data''" freshToolSystem]
  have "answerOf (processQuery (demoAgentEnv (constantProvider (batchResponse [listCall])))
      ''list the available data'' freshToolSystem) = Some (JStr fallbackMessage)"
    by (auto simp add: answerOf_def)
  with always show ?thesis by blast
qed

theorem processQuery_forced_by_ceiling_counterexample:
  "answerOf (processQuery (demoAgentEnv (constantProvider (batchResponse [listCall])))
      ''list the available data'' freshToolSystem) = Some (JStr fallbackMessage) \<and>
   conversationLengthOf (processQuery (demoAgentEnv (constantProvider (batchResponse [listCall])))
      ''list the available data'' freshToolSystem) = Some 22"
proof -
  have "length (messages (initializeState ''list the available data'')) + 2 * 9 = 20"
    by (simp add: initializeState_facts)
  from list_only_run [OF initializeState_facts(1) this, of freshToolSystem]
  obtain st ts' where loop: "processLoop (demoAgentEnv (constantProvider (batchResponse [listCall])))
      (initializeState ''list the available data'', freshToolSystem) = Some (st, ts')"
    and final: "finalResponse st = Some (JStr fallbackMessage)"
    and len: "length (messages st) = 22" by blast
  have "returnedValue st = JStr fallbackMessage"
    using final by (simp add: returnedValue_def orElse_def fallbackMessage_def)
  with processQuery_loop [OF loop] len show ?thesis
    by (simp add: answerOf_def conversationLengthOf_def)
qed


section \<open>The reply tool\<close>

lemma reply_turn:
  assumes provider: "streamCompletion env (map toProviderMessage (messages st)) = Inr response"
    and batch: "response_tool_calls response = Some (before @ replyCall # after)"
    and name: "function_name replyCall = ''reply''"
    and parse: "JSON_parse env (function_arguments replyCall) = Some toolArgs"
    and msg: "getProp toolArgs ''message'' = Inr message"
    and first: "\<forall>c \<in> set before. function_name c = ''reply'' \<longrightarrow>
                  JSON_parse env (function_arguments c) = None"
  shows "\<exists>st' ts'.
           handleToolCalls env (before @ replyCall # after)
             (st\<lparr>messages := messages st @ [assistantMessage response]\<rparr>, ts) = (None, st', ts') \<and>
           handleToolCalls env (before @ [replyCall])
             (st\<lparr>messages := messages st @ [assistantMessage response]\<rparr>, ts) = (None, st', ts') \<and>
           isComplete st' \<and> finalResponse st' = message \<and>
           length (messages st') = length (messages st) + 1 +
             length (filter (\<lambda>c. JSON_parse env (function_arguments c) \<noteq> None) before) \<and>
           executionCounter ts' = executionCounter ts +
             length (filter (\<lambda>c. JSON_parse env (function_arguments c) \<noteq> None) before) + 1 \<and>
           turn env (st, ts) = (safetyCheck st', ts') \<and>
           (\<not> isComplete st \<longrightarrow> processLoop env (st, ts) = Some (safetyCheck st', ts'))"
proof -
  let ?st1 = "st\<lparr>messages := messages st @ [assistantMessage response]\<rparr>"
  from handleToolCalls_reply_batch [OF name parse msg first, of after ?st1 ts]
  obtain st' ts' where
    h: "handleToolCalls env (before @ replyCall # after) (?st1, ts) = (None, st', ts')"
    and cut: "handleToolCalls env (before @ [replyCall]) (?st1, ts) = (None, st', ts')"
    and facts: "isComplete st'" "finalResponse st' = message"
      "length (messages st') = length (messages ?st1) +
         length (filter (\<lambda>c. JSON_parse env (function_arguments c) \<noteq> None) before)"
      "executionCounter ts' = executionCounter ts +
         length (filter (\<lambda>c. JSON_parse env (function_arguments c) \<noteq> None) before) + 1"
    by blast
  have "turnTry env (st, ts) =
      (case handleToolCalls env (before @ replyCall # after) (?st1, ts) of
         (Some e, st2, ts2) \<Rightarrow> (Some e, st2, ts2)
       | (None, st2, ts2) \<Rightarrow> (None, safetyCheck st2, ts2))"
    by (rule turnTry_batch [OF provider batch]) simp
  with h have t: "turn env (st, ts) = (safetyCheck st', ts')"
    by (simp add: turn_def)
  have c: "isComplete (safetyCheck st')"
    using facts(1) by (simp add: safetyCheck_def)
  have loop: "\<not> isComplete st \<longrightarrow> processLoop env (st, ts) = Some (safetyCheck st', ts')"
    using t c by (simp add: processLoop_step processLoop_complete)
  from h cut facts t loop show ?thesis by (intro exI [of _ st'] exI [of _ ts']) simp
qed

lemma ceiling_overrides_reply:
  assumes "demoParse (jsonMessage m) = Some (JObj [(''message'', JStr m)])"
  shows "answerOf (processQuery
            (demoAgentEnv (constantProvider (batchResponse (replicate 18 listCall @ [replyWith m]))))
            userQuery freshToolSystem) = Some (JStr fallbackMessage)"
proof -
  let ?env = "demoAgentEnv (constantProvider (batchResponse (replicate 18 listCall @ [replyWith m])))"
  have parse: "JSON_parse ?env (function_arguments (replyWith m)) =
      Some (JObj [(''message'', JStr m)])"
    using assms by (simp add: demoAgentEnv_facts replyWith_def)
  have first: "\<forall>c \<in> set (replicate 18 listCall). function_name c = ''reply'' \<longrightarrow>
      JSON_parse ?env (function_arguments c) = None"
    by (simp add: demo_calls_names)
  have count: "length (filter (\<lambda>c. JSON_parse ?env (function_arguments c) \<noteq> None)
      (replicate 18 listCall)) = 18"
    by (simp add: demo_calls_parse)
  from reply_turn [OF constant_batch_provider(1)
      constant_batch_provider(2) [of "replicate 18 listCall @ replyWith m # []"]
      demo_calls_names(4) parse _ first, of "Some (JStr m)" "initializeState userQuery" freshToolSystem]
  obtain st' ts' where len: "length (messages st') = length (messages (initializeState userQuery)) + 1 +
      length (filter (\<lambda>c. JSON_parse ?env (function_arguments c) \<noteq> None) (replicate 18 listCall))"
    and loop: "processLoop ?env (initializeState userQuery, freshToolSystem) =
      Some (safetyCheck st', ts')"
    by (auto simp add: initializeState_facts)
  from len count have "20 < length (messages st')" by (simp add: initializeState_facts)
  then have "returnedValue (safetyCheck st') = JStr fallbackMessage"
    by (simp add: safetyCheck_def returnedValue_def orElse_def fallbackMessage_def)
  with processQuery_loop [OF loop] show ?thesis by (simp add: answerOf_def)
qed

lemma null_reply_run:
  "answerOf (processQuery (demoAgentEnv (constantProvider (batchResponse [replyNull])))
      userQuery freshToolSystem) =
     Some (JStr (''An error occurred while processing your request: '' @
                 ''Cannot read properties of null (reading '' @ quoted ''message'' @ '')''))"
proof -
  let ?env = "demoAgentEnv (constantProvider (batchResponse [replyNull]))"
  let ?st1 = "(initializeState userQuery)\<lparr>messages := messages (initializeState userQuery) @
      [assistantMessage (batchResponse [replyNull])]\<rparr>"
  let ?e = "JsError (''Cannot read properties of null (reading '' @ quoted ''message'' @ '')'')"
  obtain outcome ts1 where ex: "executeTool (toolEnv ?env)
      \<lparr> tool_name = function_name replyNull, tool_arguments = JNull \<rparr> freshToolSystem
      = (outcome, ts1)"
    by (cases "executeTool (toolEnv ?env)
      \<lparr> tool_name = function_name replyNull, tool_arguments = JNull \<rparr> freshToolSystem")
  from handleToolCalls_parsed_reply [OF demo_calls_parse(3) demo_calls_names(3) ex,
      where st = ?st1 and rest = "[]"]
  have h: "handleToolCalls ?env [replyNull] (?st1, freshToolSystem) = (Some ?e, ?st1, ts1)"
    by (simp add: quoted_def)
  have "turnTry ?env (initializeState userQuery, freshToolSystem) =
      (case handleToolCalls ?env [replyNull] (?st1, freshToolSystem) of
         (Some e, st2, ts2) \<Rightarrow> (Some e, st2, ts2)
       | (None, st2, ts2) \<Rightarrow> (None, safetyCheck st2, ts2))"
    by (rule turnTry_batch [OF constant_batch_provider]) simp
  with h have "turn ?env (initializeState userQuery, freshToolSystem) =
      (catchTurnError ?e ?st1, ts1)"
    by (simp add: turn_def)
  then have loop: "processLoop ?env (initializeState userQuery, freshToolSystem) =
      Some (catchTurnError ?e ?st1, ts1)"
    by (simp add: processLoop_step processLoop_complete initializeState_facts catchTurnError_def)
  have "returnedValue (catchTurnError ?e ?st1) =
      JStr (''An error occurred while processing your request: '' @
            ''Cannot read properties of null (reading '' @ quoted ''message'' @ '')'')"
    by (simp add: catchTurnError_def returnedValue_def orElse_def)
  with processQuery_loop [OF loop] show ?thesis by (simp add: answerOf_def)
qed

text \<open>
  While the safety check stays silent: take a pass of the loop in which the provider
  answers with a batch, and in the batch the first \<open>reply\<close> request whose arguments
  parse; let the parsed arguments be a value whose \<open>message\<close> can be read (any value but
  \<open>null\<close>), and let the conversation, with the assistant's message and the results of
  the requests before the reply, hold at most 20 messages. Then the loop ends with the
  completion flag set and the final response equal to that \<open>message\<close>. The dispatch does
  what it does to the batch cut off after the reply: the tool system has executed the
  requests before the reply that parse, and the reply, and nothing after it.
\<close>

lemma reply_ends_the_loop:
  assumes "streamCompletion env (map toProviderMessage (messages st)) = Inr response"
    and "response_tool_calls response = Some (before @ replyCall # after)"
    and "function_name replyCall = ''reply''"
    and "JSON_parse env (function_arguments replyCall) = Some toolArgs"
    and "getProp toolArgs ''message'' = Inr message"
    and "\<forall>c \<in> set before. function_name c = ''reply'' \<longrightarrow>
           JSON_parse env (function_arguments c) = None"
    and "\<not> isComplete st"
    and "length (messages st) + 1 +
           length (filter (\<lambda>c. JSON_parse env (function_arguments c) \<noteq> None) before) \<le> 20"
  shows "\<exists>st' ts'.
           processLoop env (st, ts) = Some (st', ts') \<and>
           isComplete st' \<and> finalResponse st' = message \<and>
           handleToolCalls env (before @ replyCall # after)
             (st\<lparr>messages := messages st @ [assistantMessage response]\<rparr>, ts) = (None, st', ts') \<and>
           handleToolCalls env (before @ [replyCall])
             (st\<lparr>messages := messages st @ [assistantMessage response]\<rparr>, ts) = (None, st', ts') \<and>
           length (messages st') = length (messages st) + 1 +
             length (filter (\<lambda>c. JSON_parse env (function_arguments c) \<noteq> None) before) \<and>
           executionCounter ts' = executionCounter ts +
             length (filter (\<lambda>c. JSON_parse env (function_arguments c) \<noteq> None) before) + 1"
proof -
  from reply_turn [OF assms(1-6), where ts = ts]
  obtain st' ts' where
    h: "handleToolCalls env (before @ replyCall # after)
          (st\<lparr>messages := messages st @ [assistantMessage response]\<rparr>, ts) = (None, st', ts')"
       "handleToolCalls env (before @ [replyCall])
          (st\<lparr>messages := messages st @ [assistantMessage response]\<rparr>, ts) = (None, st', ts')"
    and facts: "isComplete st'" "finalResponse st' = message"
    and len: "length (messages st') = length (messages st) + 1 +
         length (filter (\<lambda>c. JSON_parse env (function_arguments c) \<noteq> None) before)"
    and counter: "executionCounter ts' = executionCounter ts +
         length (filter (\<lambda>c. JSON_parse env (function_arguments c) \<noteq> None) before) + 1"
    and loop: "\<not> isComplete st \<longrightarrow> processLoop env (st, ts) = Some (safetyCheck st', ts')"
    by blast
  from len assms(8) have "safetyCheck st' = st'" by (simp add: safetyCheck_def)
  with loop assms(7) have "processLoop env (st, ts) = Some (st', ts')" by simp
  with h facts len counter show ?thesis by blast
qed

lemma reply_ends_the_loop_example:
  "answerOf (processQuery
      (demoAgentEnv (constantProvider
         (batchResponse ([listCall, brokenCall] @ replyWith ''done'' # [listCall]))))
      ''list the available data'' freshToolSystem) = Some (JStr ''done'') \<and>
   executionsOf (processQuery
      (demoAgentEnv (constantProvider
         (batchResponse ([listCall, brokenCall] @ replyWith ''done'' # [listCall]))))
      ''list the available data'' freshToolSystem) = Some 2 \<and>
   conversationLengthOf (processQuery
      (demoAgentEnv (constantProvider
         (batchResponse ([listCall, brokenCall] @ replyWith ''done'' # [listCall]))))
      ''list the available data'' freshToolSystem) = Some 4"
proof -
  let ?env = "demoAgentEnv (constantProvider
      (batchResponse ([listCall, brokenCall] @ replyWith ''done'' # [listCall])))"
  let ?st = "initializeState ''list the available data''"
  have first: "\<forall>c \<in> set [listCall, brokenCall]. function_name c = ''reply'' \<longrightarrow>
      JSON_parse ?env (function_arguments c) = None"
    by (simp add: demo_calls_names)
  have msg: "getProp (JObj [(''message'', JStr ''done'')]) ''message'' = Inr (Some (JStr ''done''))"
    by simp
  have count: "length (filter (\<lambda>c. JSON_parse ?env (function_arguments c) \<noteq> None)
      [listCall, brokenCall]) = 1"
    by (simp add: demo_calls_parse)
  have room: "length (messages ?st) + 1 +
      length (filter (\<lambda>c. JSON_parse ?env (function_arguments c) \<noteq> None)
        [listCall, brokenCall]) \<le> 20"
    by (simp add: count initializeState_facts)
  from reply_ends_the_loop [OF constant_batch_provider demo_calls_names(4) demo_calls_parse(4)
      msg first initializeState_facts(1) room, of freshToolSystem]
  obtain st' ts' where loop: "processLoop ?env (?st, freshToolSystem) = Some (st', ts')"
    and final: "finalResponse st' = Some (JStr ''done'')"
    and len: "length (messages st') = length (messages ?st) + 1 +
      length (filter (\<lambda>c. JSON_parse ?env (function_arguments c) \<noteq> None) [listCall, brokenCall])"
    and counter: "executionCounter ts' = executionCounter freshToolSystem +
      length (filter (\<lambda>c. JSON_parse ?env (function_arguments c) \<noteq> None) [listCall, brokenCall]) + 1"
    by blast
  have "returnedValue st' = JStr ''done''"
    using final by (simp add: returnedValue_def orElse_def)
  with processQuery_loop [OF loop] len counter count show ?thesis
    by (simp add: answerOf_def executionsOf_def conversationLengthOf_def
        initializeState_facts freshToolSystem_def)
qed

lemma first_reply_wins:
  "answerOf (processQuery
      (demoAgentEnv (constantProvider (batchResponse [replyWith ''done'', replyWith ''''])))
      userQuery freshToolSystem) = Some (JStr ''done'')"
proof -
  let ?env = "demoAgentEnv (constantProvider (batchResponse [replyWith ''done'', replyWith '''']))"
  have batch: "response_tool_calls (batchResponse [replyWith ''done'', replyWith '''']) =
      Some ([] @ replyWith ''done'' # [replyWith ''''])"
    by (simp add: constant_batch_provider)
  from reply_turn [OF constant_batch_provider(1) batch demo_calls_names(4) demo_calls_parse(4),
      where st = "initializeState userQuery" and ts = freshToolSystem
        and message = "Some (JStr ''done'')"]
  obtain st' ts' where final: "finalResponse st' = Some (JStr ''done'')"
    and len: "length (messages st') = length (messages (initializeState userQuery)) + 1"
    and loop: "processLoop ?env (initializeState userQuery, freshToolSystem) =
      Some (safetyCheck st', ts')"
    by (auto simp add: initializeState_facts)
  from len final have "returnedValue (safetyCheck st') = JStr ''done''"
    by (simp add: safetyCheck_def returnedValue_def orElse_def initializeState_facts)
  with processQuery_loop [OF loop] show ?thesis by (simp add: answerOf_def)
qed

text \<open>
  While the safety check stays silent, a \<open>reply\<close> whose \<open>message\<close> is the empty string
  ends the loop with the completion flag set and the empty string stored as the final
  response, and the value \<open>processQuery\<close> returns for that state is the sentinel
  \<open>'No response generated.'\<close>; every state whose final response is falsy gives the
  sentinel.
\<close>

lemma empty_reply_returns_sentinel:
  assumes "streamCompletion env (map toProviderMessage (messages st)) = Inr response"
    and "response_tool_calls response = Some (before @ replyCall # after)"
    and "function_name replyCall = ''reply''"
    and "JSON_parse env (function_arguments replyCall) = Some toolArgs"
    and "getProp toolArgs ''message'' = Inr (Some (JStr []))"
    and "\<forall>c \<in> set before. function_name c = ''reply'' \<longrightarrow>
           JSON_parse env (function_arguments c) = None"
    and "\<not> isComplete st"
    and "length (messages st) + 1 +
           length (filter (\<lambda>c. JSON_parse env (function_arguments c) \<noteq> None) before) \<le> 20"
  shows "(\<exists>st' ts'.
            processLoop env (st, ts) = Some (st', ts') \<and>
            isComplete st' \<and> finalResponse st' = Some (JStr []) \<and>
            returnedValue st' = JStr noResponse) \<and>
         (\<not> truthy (finalResponse stB) \<longrightarrow> returnedValue stB = JStr noResponse)"
proof
  from reply_turn [OF assms(1-6), where ts = ts]
  obtain st' ts' where facts: "isComplete st'" "finalResponse st' = Some (JStr [])"
    and len: "length (messages st') = length (messages st) + 1 +
         length (filter (\<lambda>c. JSON_parse env (function_arguments c) \<noteq> None) before)"
    and loop: "\<not> isComplete st \<longrightarrow> processLoop env (st, ts) = Some (safetyCheck st', ts')"
    by blast
  from len assms(8) have "safetyCheck st' = st'" by (simp add: safetyCheck_def)
  with loop assms(7) have "processLoop env (st, ts) = Some (st', ts')" by simp
  moreover have "returnedValue st' = JStr noResponse"
    using facts(2) by (simp add: returnedValue_def orElse_def)
  ultimately show "\<exists>st' ts'.
      processLoop env (st, ts) = Some (st', ts') \<and>
      isComplete st' \<and> finalResponse st' = Some (JStr []) \<and>
      returnedValue st' = JStr noResponse"
    using facts by blast
  show "\<not> truthy (finalResponse stB) \<longrightarrow> returnedValue stB = JStr noResponse"
    by (cases "finalResponse stB") (simp_all add: returnedValue_def orElse_def)
qed

lemma empty_reply_returns_sentinel_example:
  "JSON_parse (demoAgentEnv (constantProvider (batchResponse [listCall, replyWith ''''])))
     (function_arguments (replyWith '''')) = Some (JObj [(''message'', JStr '''')]) \<and>
   answerOf (processQuery
      (demoAgentEnv (constantProvider (batchResponse [listCall, replyWith ''''])))
      ''list the available data'' freshToolSystem) = Some (JStr noResponse)"
proof -
  let ?env = "demoAgentEnv (constantProvider (batchResponse [listCall, replyWith '''']))"
  let ?st = "initializeState ''list the available data''"
  have batch: "response_tool_calls (batchResponse [listCall, replyWith '''']) =
      Some ([listCall] @ replyWith '''' # [])"
    by (simp add: constant_batch_provider)
  have first: "\<forall>c \<in> set [listCall]. function_name c = ''reply'' \<longrightarrow>
      JSON_parse ?env (function_arguments c) = None"
    by (simp add: demo_calls_names)
  have msg: "getProp (JObj [(''message'', JStr '''')]) ''message'' = Inr (Some (JStr []))"
    by simp
  have room: "length (messages ?st) + 1 +
      length (filter (\<lambda>c. JSON_parse ?env (function_arguments c) \<noteq> None) [listCall]) \<le> 20"
    by (simp add: initializeState_facts)
  from empty_reply_returns_sentinel [OF constant_batch_provider(1) batch demo_calls_names(4)
      demo_calls_parse(5) msg first initializeState_facts(1) room, where ts = freshToolSystem]
  obtain st' ts' where loop: "processLoop ?env (?st, freshToolSystem) = Some (st', ts')"
    and ret: "returnedValue st' = JStr noResponse"
    by blast
  from processQuery_loop [OF loop] ret show ?thesis
    by (simp add: answerOf_def demo_calls_parse)
qed

subsection \<open>A reply above the ceiling\<close>

lemma list_turn:
  assumes "p (map toProviderMessage (messages st)) = Inr (batchResponse [listCall])"
  shows "\<exists>st2 ts2. turn (demoAgentEnv p) (st, ts) = (safetyCheck st2, ts2) \<and>
           isComplete st2 = isComplete st \<and> length (messages st2) = length (messages st) + 2"
proof -
  let ?env = "demoAgentEnv p"
  let ?st1 = "st\<lparr>messages := messages st @ [assistantMessage (batchResponse [listCall])]\<rparr>"
  obtain outcome ts1 where ex: "executeTool (toolEnv ?env)
      \<lparr> tool_name = function_name listCall, tool_arguments = JObj [] \<rparr> ts = (outcome, ts1)"
    by (cases "executeTool (toolEnv ?env)
      \<lparr> tool_name = function_name listCall, tool_arguments = JObj [] \<rparr> ts")
  have other: "function_name listCall \<noteq> ''reply''" by (simp add: demo_calls_names)
  have provider: "streamCompletion ?env (map toProviderMessage (messages st)) =
      Inr (batchResponse [listCall])"
    using assms by (simp add: demoAgentEnv_facts)
  from handleToolCalls_parsed_other [OF demo_calls_parse(1) other ex, where st = ?st1]
  obtain m where "handleToolCalls ?env [listCall] (?st1, ts) =
      (None, ?st1\<lparr>messages := messages ?st1 @ [m]\<rparr>, ts1)"
    by auto
  moreover have "turnTry ?env (st, ts) =
      (case handleToolCalls ?env [listCall] (?st1, ts) of
         (Some e, st2, ts2) \<Rightarrow> (Some e, st2, ts2)
       | (None, st2, ts2) \<Rightarrow> (None, safetyCheck st2, ts2))"
    by (rule turnTry_batch [OF provider constant_batch_provider(2)]) simp
  ultimately have "turn ?env (st, ts) =
      (safetyCheck (?st1\<lparr>messages := messages ?st1 @ [m]\<rparr>), ts1)"
    by (simp add: turn_def)
  then show ?thesis by (intro exI conjI) (assumption, simp_all)
qed

lemma reply_when_full_run:
  assumes parse: "demoParse (jsonMessage m) = Some (JObj [(''message'', JStr m)])"
    and running: "\<not> isComplete st"
    and len: "length (messages st) + 2 * n = 20"
  shows "\<exists>st' ts'. processLoop (demoAgentEnv (replyWhenFull m)) (st, ts) = Some (st', ts') \<and>
           finalResponse st' = Some (JStr fallbackMessage) \<and> length (messages st') = 21"
  using running len
proof (induction n arbitrary: st ts)
  case 0
  let ?env = "demoAgentEnv (replyWhenFull m)"
  have provider: "streamCompletion ?env (map toProviderMessage (messages st)) =
      Inr (batchResponse [replyWith m])"
    using 0 by (simp add: demoAgentEnv_facts replyWhenFull_def)
  have batch: "response_tool_calls (batchResponse [replyWith m]) = Some ([] @ replyWith m # [])"
    by (simp add: constant_batch_provider)
  have parsed: "JSON_parse ?env (function_arguments (replyWith m)) =
      Some (JObj [(''message'', JStr m)])"
    using parse by (simp add: demoAgentEnv_facts replyWith_def)
  from reply_turn [OF provider batch demo_calls_names(4) parsed,
      where ts = ts and message = "Some (JStr m)"]
  obtain st' ts' where l: "length (messages st') = length (messages st) + 1"
    and loop: "\<not> isComplete st \<longrightarrow> processLoop ?env (st, ts) = Some (safetyCheck st', ts')"
    by auto
  from l 0 have "safetyCheck st' =
      st'\<lparr>finalResponse := Some (JStr fallbackMessage), isComplete := True\<rparr>"
    by (simp add: safetyCheck_def)
  with loop l 0 show ?case by simp
next
  case (Suc n)
  let ?env = "demoAgentEnv (replyWhenFull m)"
  have asks: "replyWhenFull m (map toProviderMessage (messages st)) = Inr (batchResponse [listCall])"
    using Suc.prems by (simp add: replyWhenFull_def)
  from list_turn [where p = "replyWhenFull m" and st = st and ts = ts, OF asks]
  obtain st2 ts2 where
    t: "turn ?env (st, ts) = (safetyCheck st2, ts2)"
    and keep: "isComplete st2 = isComplete st"
    and l: "length (messages st2) = length (messages st) + 2" by blast
  from l Suc.prems have same: "safetyCheck st2 = st2" by (simp add: safetyCheck_def)
  have "\<not> isComplete st2" and "length (messages st2) + 2 * n = 20"
    using keep l Suc.prems by simp_all
  from Suc.IH [OF this, of ts2] t same Suc.prems(1) show ?case
    by (simp add: processLoop_step)
qed

lemma reply_after_nine_turns:
  assumes "demoParse (jsonMessage m) = Some (JObj [(''message'', JStr m)])"
  shows "answerOf (processQuery (demoAgentEnv (replyWhenFull m)) userQuery freshToolSystem) =
           Some (JStr fallbackMessage) \<and>
         conversationLengthOf (processQuery (demoAgentEnv (replyWhenFull m)) userQuery freshToolSystem) =
           Some 21"
proof -
  have "length (messages (initializeState userQuery)) + 2 * 9 = 20"
    by (simp add: initializeState_facts)
  from reply_when_full_run [OF assms initializeState_facts(1) this, of freshToolSystem]
  obtain st ts' where loop: "processLoop (demoAgentEnv (replyWhenFull m))
      (initializeState userQuery, freshToolSystem) = Some (st, ts')"
    and final: "finalResponse st = Some (JStr fallbackMessage)"
    and l: "length (messages st) = 21" by blast
  have "returnedValue st = JStr fallbackMessage"
    using final by (simp add: returnedValue_def orElse_def fallbackMessage_def)
  with processQuery_loop [OF loop] l show ?thesis
    by (simp add: answerOf_def conversationLengthOf_def)
qed

text \<open>
  C1. A reply does not always decide the final response. The provider asks for the list
  of indices in nine passes and answers the tenth with a \<open>reply\<close> whose arguments parse
  to the message \<open>done\<close>. The reply branch stores the message and sets the completion
  flag; the safety check that follows it in the same pass does not look at the flag,
  finds 21 messages and replaces the message: \<open>processQuery\<close> returns the fallback
  message, not \<open>done\<close>. The same happens in a first pass whose batch has 18 requests for
  the list of indices before the reply.
\<close>

theorem reply_overwritten_by_safety_check:
  "JSON_parse (demoAgentEnv (replyWhenFull ''done'')) (function_arguments (replyWith ''done'')) =
     Some (JObj [(''message'', JStr ''done'')]) \<and>
   answerOf (processQuery (demoAgentEnv (replyWhenFull ''done''))
      ''list the available data'' freshToolSystem) = Some (JStr fallbackMessage) \<and>
   conversationLengthOf (processQuery (demoAgentEnv (replyWhenFull ''done''))
      ''list the available data'' freshToolSystem) = Some 21 \<and>
   answerOf (processQuery
      (demoAgentEnv (constantProvider (batchResponse (replicate 18 listCall @ [replyWith ''done'']))))
      ''list the available data'' freshToolSystem) = Some (JStr fallbackMessage) \<and>
   fallbackMessage \<noteq> ''done''"
  using reply_after_nine_turns [OF demoParse_facts(3), of "''list the available data''"]
    ceiling_overrides_reply [OF demoParse_facts(3), of "''list the available data''"]
  by (simp add: demo_calls_parse fallbackMessage_def)

text \<open>
  C10. A reply with the empty string for message does not always make \<open>processQuery\<close>
  return the sentinel. In the same two runs, with the empty message, the reply branch
  stores the empty string and sets the completion flag, and the safety check that
  follows replaces it: \<open>processQuery\<close> returns the fallback message, which is not
  \<open>'No response generated.'\<close>.
\<close>

theorem empty_reply_overwritten_by_safety_check:
  "JSON_parse (demoAgentEnv (replyWhenFull '''')) (function_arguments (replyWith '''')) =
     Some (JObj [(''message'', JStr '''')]) \<and>
   answerOf (processQuery (demoAgentEnv (replyWhenFull ''''))
      ''list the available data'' freshToolSystem) = Some (JStr fallbackMessage) \<and>
   conversationLengthOf (processQuery (demoAgentEnv (replyWhenFull ''''))
      ''list the available data'' freshToolSystem) = Some 21 \<and>
   answerOf (processQuery
      (demoAgentEnv (constantProvider (batchResponse (replicate 18 listCall @ [replyWith '''']))))
      ''list the available data'' freshToolSystem) = Some (JStr fallbackMessage) \<and>
   fallbackMessage \<noteq> noResponse"
  using reply_after_nine_turns [OF demoParse_facts(4), of "''list the available data''"]
    ceiling_overrides_reply [OF demoParse_facts(4), of "''list the available data''"]
  by (simp add: demo_calls_parse fallbackMessage_def noResponse_def)

section \<open>Fragments of streamed tool calls\<close>

lemma appendFragment_text: "appendFragment s fragment = s @ fragmentText fragment"
  by (simp add: appendFragment_def fragmentText_def split: option.split)

lemma elementAt_assignAt:
  "elementAt (assignAt xs j v) i = (if i = j then Some v else elementAt xs i)"
proof (cases "j < length xs")
  case True
  then show ?thesis by (simp add: elementAt_def assignAt_def)
next
  case False
  then show ?thesis
    by (auto simp add: elementAt_def assignAt_def nth_append)
qed

lemma elementAt_update:
  "elementAt xs j = Some w \<Longrightarrow>
   elementAt (xs[j := Some v]) i = (if i = j then Some v else elementAt xs i)"
  by (auto simp add: elementAt_def split: if_splits)

lemma applyToolCallDelta_skip:
  assumes "delta_index d \<noteq> Some i"
  shows "elementAt (applyToolCallDelta tcs d) i = elementAt tcs i"
proof (cases "delta_index d")
  case None
  then show ?thesis by (simp add: applyToolCallDelta_def)
next
  case (Some j)
  with assms have ne: "i \<noteq> j" by simp
  show ?thesis
  proof (cases "elementAt tcs j")
    case None
    with Some ne show ?thesis
      by (simp add: applyToolCallDelta_def Let_def elementAt_assignAt
          elementAt_update [where w = "\<lparr> call_id = (case delta_id d of None \<Rightarrow> [] | Some x \<Rightarrow> x),
            function_name = [], function_arguments = [] \<rparr>"])
  next
    case (Some tc)
    with \<open>delta_index d = Some j\<close> ne show ?thesis
      by (simp add: applyToolCallDelta_def Let_def elementAt_update [where w = tc])
  qed
qed

lemma applyToolCallDelta_existing:
  assumes "delta_index d = Some i" and "elementAt tcs i = Some tc"
  shows "elementAt (applyToolCallDelta tcs d) i =
           Some (tc\<lparr> function_name := function_name tc @ fragmentText (delta_name d),
                     function_arguments :=
                       function_arguments tc @ fragmentText (delta_arguments d) \<rparr>)"
  using assms
  by (simp add: applyToolCallDelta_def Let_def elementAt_update [where w = tc]
      appendFragment_text)

lemma applyToolCallDelta_fresh:
  assumes "delta_index d = Some i" and "elementAt tcs i = None"
  shows "elementAt (applyToolCallDelta tcs d) i =
           Some \<lparr> call_id = fragmentText (delta_id d),
                  function_name = fragmentText (delta_name d),
                  function_arguments = fragmentText (delta_arguments d) \<rparr>"
  using assms
  by (simp add: applyToolCallDelta_def Let_def elementAt_assignAt appendFragment_text
      elementAt_update [where w = "\<lparr> call_id = (case delta_id d of None \<Rightarrow> [] | Some x \<Rightarrow> x),
            function_name = [], function_arguments = [] \<rparr>"])
     (simp add: fragmentText_def)

lemma deltasAt_simps:
  "deltasAt i [] = []"
  "delta_index d = Some i \<Longrightarrow> deltasAt i (d # ds) = d # deltasAt i ds"
  "delta_index d \<noteq> Some i \<Longrightarrow> deltasAt i (d # ds) = deltasAt i ds"
  by (simp_all add: deltasAt_def)

lemma applyDeltas_existing:
  assumes "elementAt tcs i = Some tc"
  shows "elementAt (foldl applyToolCallDelta tcs ds) i =
           Some (tc\<lparr> function_name :=
                       function_name tc @ concat (map (\<lambda>d. fragmentText (delta_name d)) (deltasAt i ds)),
                     function_arguments :=
                       function_arguments tc @
                       concat (map (\<lambda>d. fragmentText (delta_arguments d)) (deltasAt i ds)) \<rparr>)"
  using assms
proof (induction ds arbitrary: tcs tc)
  case Nil
  then show ?case by (simp add: deltasAt_simps)
next
  case (Cons d ds)
  show ?case
  proof (cases "delta_index d = Some i")
    case True
    from Cons.IH [OF applyToolCallDelta_existing [OF True Cons.prems]]
    show ?thesis by (simp add: deltasAt_simps(2) [OF True])
  next
    case False
    from applyToolCallDelta_skip [OF False, of tcs] Cons.prems
    have "elementAt (applyToolCallDelta tcs d) i = Some tc" by simp
    from Cons.IH [OF this] show ?thesis by (simp add: deltasAt_simps(3) [OF False])
  qed
qed

lemma applyDeltas_fresh:
  assumes "elementAt tcs i = None"
  shows "elementAt (foldl applyToolCallDelta tcs ds) i =
           (case deltasAt i ds of
              [] \<Rightarrow> None
            | d # rest \<Rightarrow>
                Some \<lparr> call_id = fragmentText (delta_id d),
                       function_name =
                         concat (map (\<lambda>d. fragmentText (delta_name d)) (deltasAt i ds)),
                       function_arguments =
                         concat (map (\<lambda>d. fragmentText (delta_arguments d)) (deltasAt i ds)) \<rparr>)"
  using assms
proof (induction ds arbitrary: tcs)
  case Nil
  then show ?case by (simp add: deltasAt_simps)
next
  case (Cons d ds)
  show ?case
  proof (cases "delta_index d = Some i")
    case True
    from applyDeltas_existing [OF applyToolCallDelta_fresh [OF True Cons.prems], of ds]
    show ?thesis by (simp add: deltasAt_simps(2) [OF True])
  next
    case False
    from applyToolCallDelta_skip [OF False, of tcs] Cons.prems
    have "elementAt (applyToolCallDelta tcs d) i = None" by simp
    from Cons.IH [OF this] show ?thesis by (simp only: deltasAt_simps(3) [OF False] foldl_Cons)
  qed
qed

lemma processChunk_toolCalls:
  "toolCalls (processChunk hasObserver startMarker st chunk) =
     foldl applyToolCallDelta (toolCalls st)
       (case chunk_tool_calls chunk of None \<Rightarrow> [] | Some ds \<Rightarrow> ds)"
  by (simp add: processChunk_def Let_def split: option.split)

lemma processChunks_toolCalls:
  "toolCalls (foldl (processChunk hasObserver startMarker) st chunks) =
     foldl applyToolCallDelta (toolCalls st) (arrivedDeltas chunks)"
proof (induction chunks arbitrary: st)
  case Nil
  show ?case by (simp add: arrivedDeltas_def)
next
  case (Cons chunk chunks)
  from Cons.IH [of "processChunk hasObserver startMarker st chunk"]
  show ?case by (simp add: arrivedDeltas_def processChunk_toolCalls)
qed

lemma consumeStream_toolCalls:
  "toolCalls (consumeStream hasObserver startMarker chunks) =
     foldl applyToolCallDelta [] (arrivedDeltas chunks)"
  by (simp add: consumeStream_def Let_def processChunks_toolCalls)


text \<open>
  C9. For every stream and every index, the array that \<open>streamCompletion\<close> has built when
  the stream ends holds at that index the call made of all deltas that carry the index,
  in the order they arrived: its name is the concatenation of their name fragments, its
  argument text the concatenation of their argument fragments (an absent fragment
  counting as empty), and its id the id of the first of them. An index that no delta
  carries holds no call.
\<close>

theorem streamed_call_is_concatenation:
  "elementAt (toolCalls (consumeStream hasObserver startMarker chunks)) i =
     (case deltasAt i (arrivedDeltas chunks) of
        [] \<Rightarrow> None
      | d # rest \<Rightarrow>
          Some \<lparr> call_id = fragmentText (delta_id d),
                 function_name =
                   concat (map (\<lambda>d. fragmentText (delta_name d))
                             (deltasAt i (arrivedDeltas chunks))),
                 function_arguments =
                   concat (map (\<lambda>d. fragmentText (delta_arguments d))
                             (deltasAt i (arrivedDeltas chunks))) \<rparr>)"
proof -
  have "elementAt ([] :: AIToolCall option list) i = None" by (simp add: elementAt_def)
  from applyDeltas_fresh [OF this, of "arrivedDeltas chunks"] show ?thesis
    by (simp only: consumeStream_toolCalls)
qed

theorem streamed_call_is_concatenation_witness:
  "elementAt (toolCalls (consumeStream True ''> '' demoStream)) 0 =
     Some \<lparr> call_id = ''call_a'', function_name = ''list_indices'', function_arguments = ''{}'' \<rparr> \<and>
   elementAt (toolCalls (consumeStream True ''> '' demoStream)) 1 =
     Some \<lparr> call_id = ''call_b'', function_name = ''reply'', function_arguments = ''null'' \<rparr> \<and>
   elementAt (toolCalls (consumeStream True ''> '' demoStream)) 2 = None"
  using streamed_call_is_concatenation [of True "''> ''" demoStream 0]
    streamed_call_is_concatenation [of True "''> ''" demoStream 1]
    streamed_call_is_concatenation [of True "''> ''" demoStream 2]
  by (simp add: arrivedDeltas_def deltasAt_def demoStream_def fragmentText_def)


end
